theory Spec2Isabelle
  imports Complex_Main
begin

section \<open>Synchronised video playback: a shallow embedding of video.js\<close>

text \<open>
  The embedding follows \<^verbatim>\<open>src/src/video.js\<close>. JavaScript numbers are read as
  real numbers: every time, offset and rate below is a \<^typ>\<open>real\<close>, so rounding of
  doubles is outside the model. A field that JavaScript leaves \<^verbatim>\<open>undefined\<close> or
  sets to \<^verbatim>\<open>null\<close> is an \<^typ>\<open>'a option\<close>.
\<close>

subsection \<open>The HTML video element\<close>

text \<open>
  The element is the browser's. The model keeps the properties the code reads
  (\<^verbatim>\<open>currentTime\<close>, \<^verbatim>\<open>playbackRate\<close>, \<^verbatim>\<open>muted\<close>) and, in \<open>issued\<close>,
  the list of commands the code has sent to it, oldest first: what the element does
  with a command beyond storing the value is the browser's business.
\<close>

datatype elemCommand =
    SetCurrentTime real
  | ElemPause
  | ElemPlay
  | SetPlaybackRate real
  | SetMuted bool

record videoElem =
  currentTime :: real
  playbackRate :: real
  muted :: bool
  issued :: "elemCommand list"

text \<open>\<^verbatim>\<open>video.currentTime = t\<close>\<close>

definition setCurrentTime :: "real \<Rightarrow> videoElem \<Rightarrow> videoElem" where
  "setCurrentTime t e = e\<lparr>currentTime := t, issued := issued e @ [SetCurrentTime t]\<rparr>"

text \<open>\<^verbatim>\<open>video.pause()\<close>\<close>

definition elemPause :: "videoElem \<Rightarrow> videoElem" where
  "elemPause e = e\<lparr>issued := issued e @ [ElemPause]\<rparr>"

text \<open>
  \<^verbatim>\<open>video.play()\<close>: the call itself. Whether the browser lets the video play is
  known only when the promise settles (see \<open>playSettled\<close>).
\<close>

definition elemPlay :: "videoElem \<Rightarrow> videoElem" where
  "elemPlay e = e\<lparr>issued := issued e @ [ElemPlay]\<rparr>"

text \<open>\<^verbatim>\<open>video.playbackRate = r\<close>\<close>

definition setPlaybackRate :: "real \<Rightarrow> videoElem \<Rightarrow> videoElem" where
  "setPlaybackRate r e = e\<lparr>playbackRate := r, issued := issued e @ [SetPlaybackRate r]\<rparr>"

text \<open>\<^verbatim>\<open>video.muted = b\<close>\<close>

definition setMuted :: "bool \<Rightarrow> videoElem \<Rightarrow> videoElem" where
  "setMuted b e = e\<lparr>muted := b, issued := issued e @ [SetMuted b]\<rparr>"

subsection \<open>Video2DView\<close>

text \<open>
  \<open>duration\<close> is \<open>None\<close> until \<^verbatim>\<open>oncanplay\<close> has copied it from the element.
  The flags \<^verbatim>\<open>isPlaying\<close> and \<^verbatim>\<open>isBlocked\<close> of the class carry the suffix
  \<open>2D\<close> here, since the replicated play state has a field \<^verbatim>\<open>isPlaying\<close> too.
\<close>

record video2d =
  duration :: "real option"
  isPlaying2D :: bool
  isBlocked2D :: bool
  video :: videoElem

text \<open>
  The loop of \<^verbatim>\<open>wrappedTime\<close>:
  \<^verbatim>\<open>while (videoTime > this.duration) videoTime -= this.duration;\<close>
  It does not return for a negative duration and a time above it, so the result is an
  option and \<open>None\<close> stands for a loop that never ends.
\<close>

partial_function (option) wrapLoop :: "real \<Rightarrow> real \<Rightarrow> real option" where
  "wrapLoop videoTime d =
     (if videoTime > d then wrapLoop (videoTime - d) d else Some videoTime)"

text \<open>
  \<^verbatim>\<open>wrappedTime(videoTime, guarded)\<close>. The test \<^verbatim>\<open>if (this.duration)\<close> fails for an
  unset duration and for 0.
\<close>

definition wrappedTime :: "video2d \<Rightarrow> real \<Rightarrow> bool \<Rightarrow> real option" where
  "wrappedTime vv videoTime guarded =
     (case duration vv of
        None \<Rightarrow> Some videoTime
      | Some d \<Rightarrow>
          if d = 0 then Some videoTime
          else (case wrapLoop videoTime d of
                  None \<Rightarrow> None
                | Some t \<Rightarrow> Some (if guarded then min (d - 0.1) t else t)))"

text \<open>
  \<^verbatim>\<open>setStatic(videoTime)\<close>; the argument is \<open>None\<close> when the caller passes none
  (\<^verbatim>\<open>videoTime !== undefined\<close> fails).
\<close>

definition setStatic :: "video2d \<Rightarrow> real option \<Rightarrow> video2d option" where
  "setStatic vv videoTime =
     (case videoTime of
        None \<Rightarrow> Some (vv\<lparr>video := elemPause (video vv)\<rparr>)
      | Some t \<Rightarrow>
          (case wrappedTime vv t True of
             None \<Rightarrow> None
           | Some w \<Rightarrow> Some (vv\<lparr>video := elemPause (setCurrentTime w (video vv))\<rparr>)))"

text \<open>\<^verbatim>\<open>pause(videoTime)\<close>\<close>

definition pause :: "video2d \<Rightarrow> real option \<Rightarrow> video2d option" where
  "pause vv videoTime = setStatic (vv\<lparr>isPlaying2D := False, isBlocked2D := False\<rparr>) videoTime"

text \<open>
  \<^verbatim>\<open>play(videoTime)\<close> is asynchronous. \<open>playStart\<close> is the part that runs at the
  call, up to \<^verbatim>\<open>await this.video.play()\<close>; \<open>playSettled\<close> is the part that runs
  when the browser settles the promise, \<open>ok\<close> telling whether it resolved. The second
  component of \<open>playSettled\<close> is the value the method returns, \<^verbatim>\<open>!this.isBlocked\<close>.
\<close>

definition playStart :: "video2d \<Rightarrow> real \<Rightarrow> video2d option" where
  "playStart vv videoTime =
     (case wrappedTime vv videoTime True of
        None \<Rightarrow> None
      | Some w \<Rightarrow> Some (vv\<lparr>isPlaying2D := True, video := elemPlay (setCurrentTime w (video vv))\<rparr>))"

definition playSettled :: "video2d \<Rightarrow> bool \<Rightarrow> video2d \<times> bool" where
  "playSettled vv ok =
     (let vv' = (if ok then vv\<lparr>isBlocked2D := False\<rparr>
                 else vv\<lparr>isBlocked2D := isPlaying2D vv\<rparr>)
      in (vv', \<not> isBlocked2D vv'))"

text \<open>
  The spec's reading of \<^verbatim>\<open>wrappedTime\<close>, \<open>t mod duration\<close>, for real numbers:
  the remainder of \<open>t\<close> after taking out whole multiples of \<open>d\<close>.
\<close>

definition specMod :: "real \<Rightarrow> real \<Rightarrow> real" where
  "specMod t d = t - d * of_int \<lfloor>t / d\<rfloor>"

subsection \<open>The replicated state: SyncedVideoModel\<close>

text \<open>
  The play state \<^verbatim>\<open>{ isPlaying, startOffset, pausedTime }\<close> is what the view keeps
  as \<^verbatim>\<open>latestPlayState\<close>. The event argument of \<^verbatim>\<open>setPlayState\<close> and of
  \<^verbatim>\<open>playStateChanged\<close> adds \<^verbatim>\<open>actionSpec\<close>; the model adds \<^verbatim>\<open>assetDescriptor\<close>.
  The fields \<^verbatim>\<open>viewId\<close>, \<^verbatim>\<open>type\<close>, \<^verbatim>\<open>x\<close> and \<^verbatim>\<open>y\<close> of an action spec are
  \<open>specViewId\<close>, \<open>specType\<close>, \<open>specX\<close> and \<open>specY\<close>. The asset descriptor is
  opaque to this code: a type parameter.
\<close>

record playState =
  isPlaying :: bool
  startOffset :: "real option"
  pausedTime :: real

record actionSpec =
  specViewId :: string
  specType :: string
  specX :: real
  specY :: real

record payload = playState +
  actionSpec :: "actionSpec option"

record 'a syncedVideoModel = playState +
  assetDescriptor :: "'a option"

datatype modelEvent = LoadVideo | PlayStateChanged payload

text \<open>\<^verbatim>\<open>addAsset(data)\<close>, with the event it publishes.\<close>

definition addAsset :: "'a syncedVideoModel \<Rightarrow> 'a \<Rightarrow> 'a syncedVideoModel \<times> modelEvent" where
  "addAsset m a =
     (m\<lparr>isPlaying := False, startOffset := None, pausedTime := 0, assetDescriptor := Some a\<rparr>,
      LoadVideo)"

text \<open>\<^verbatim>\<open>setPlayState(data)\<close>, with the event it publishes.\<close>

definition setPlayState :: "'a syncedVideoModel \<Rightarrow> payload \<Rightarrow> 'a syncedVideoModel \<times> modelEvent" where
  "setPlayState m data =
     (m\<lparr>isPlaying := isPlaying data, startOffset := startOffset data,
        pausedTime := pausedTime data\<rparr>,
      PlayStateChanged \<lparr>isPlaying = isPlaying data, startOffset = startOffset data,
        pausedTime = pausedTime data, actionSpec = actionSpec data\<rparr>)"

subsection \<open>SyncedVideoView\<close>

text \<open>
  The handlers below are the ones through which a play state reaches the adapter and
  the model: \<^verbatim>\<open>playStateChanged\<close>, \<^verbatim>\<open>applyPlayState\<close>, \<^verbatim>\<open>revealAction\<close>,
  \<^verbatim>\<open>handleSyncState\<close>, \<^verbatim>\<open>handleUserClick\<close>, \<^verbatim>\<open>handleTimebar\<close>, \<^verbatim>\<open>triggerJumpCheck\<close>,
  \<^verbatim>\<open>checkPlayStatus\<close> and \<^verbatim>\<open>update\<close>. Loading and disposing of a video
  (\<^verbatim>\<open>loadVideo\<close>, \<^verbatim>\<open>disposeOfVideo\<close>, \<^verbatim>\<open>detach\<close>), the callback that runs once
  \<^verbatim>\<open>videoView.play\<close> has settled, and \<^verbatim>\<open>stepWhileBlocked\<close> are further events of
  the view and are not embedded.
\<close>

text \<open>
  How a handler of the view ends: it returns, it throws (the state is the one reached
  at the throw, since JavaScript undoes nothing), the loop of \<^verbatim>\<open>wrappedTime\<close> never
  ends, or the code goes on with a NaN, which a model of numbers as reals cannot
  follow.
\<close>

datatype error = UnknownActionType | TypeError

datatype 'a outcome = Returns 'a | Throws error 'a | Hangs | NotANumber

text \<open>The state a handler leaves behind, whether it returned or threw.\<close>

fun outcomeState :: "'a outcome \<Rightarrow> 'a option" where
  "outcomeState (Returns x) = Some x"
| "outcomeState (Throws e x) = Some x"
| "outcomeState Hangs = None"
| "outcomeState NotANumber = None"

text \<open>A bounding rectangle of the page, as \<^verbatim>\<open>getBoundingClientRect()\<close> reports it.\<close>

record rect =
  rLeft :: real
  rTop :: real
  rWidth :: real
  rHeight :: real

text \<open>
  The remote-hand icon: its rectangle, the \<^verbatim>\<open>style.left\<close> and \<^verbatim>\<open>style.top\<close> the
  code writes (in px), its opacity, and whether the timeout that hides it is pending.
\<close>

record handIcon =
  handRect :: rect
  handLeft :: real
  handTop :: real
  handOpacity :: real
  handTimeout :: bool

text \<open>
  The view. \<^verbatim>\<open>this.videoElem\<close> is the same object as \<^verbatim>\<open>this.videoView.video\<close> and is
  read there. \<open>playIcon\<close> and \<open>enableSoundIcon\<close> are the opacities of the two icons;
  \<open>videoRect\<close>, \<open>timebarRect\<close> and \<open>contRect\<close> are the rectangles of the video
  element, of the timebar canvas and of the container, which the browser lays out.
  The session clock \<^verbatim>\<open>this.now()\<close> is an argument \<open>now\<close> of each handler that reads it.
\<close>

record syncedVideoView =
  viewId :: string
  videoView :: "video2d option"
  latestPlayState :: "playState option"
  latestActionSpec :: "actionSpec option"
  waitingForSync :: bool
  playbackBoost :: real
  lastTimingCheck :: "real option"
  lastRateAdjust :: "real option"
  jumpIfNeeded :: bool
  isStepping :: bool
  lastStatusCheck :: real
  playIcon :: real
  enableSoundIcon :: real
  remoteHandIcon :: "handIcon option"
  videoRect :: rect
  timebarRect :: rect
  contRect :: rect

text \<open>\<^verbatim>\<open>x || 0\<close> for a number that may be unset, and \<^verbatim>\<open>null\<close> read as a number.\<close>

definition orZero :: "real option \<Rightarrow> real" where
  "orZero x = (case x of None \<Rightarrow> 0 | Some r \<Rightarrow> r)"

text \<open>\<^verbatim>\<open>iconVisible(iconName, bool)\<close> for the play and enable-sound icons.\<close>

datatype iconName = Play | EnableSound

definition iconVisible :: "iconName \<Rightarrow> bool \<Rightarrow> syncedVideoView \<Rightarrow> syncedVideoView" where
  "iconVisible iconName b v =
     (case iconName of
        Play \<Rightarrow> v\<lparr>playIcon := (if b then 1 else 0)\<rparr>
      | EnableSound \<Rightarrow> v\<lparr>enableSoundIcon := (if b then 1 else 0)\<rparr>)"

text \<open>\<^verbatim>\<open>useHandToPoint(targetX, targetY)\<close>\<close>

definition useHandToPoint :: "syncedVideoView \<Rightarrow> real \<Rightarrow> real \<Rightarrow> syncedVideoView" where
  "useHandToPoint v targetX targetY =
     (case remoteHandIcon v of
        None \<Rightarrow> v
      | Some hand \<Rightarrow>
          v\<lparr>remoteHandIcon := Some (hand\<lparr>
               handLeft := targetX - rWidth (handRect hand) * 0.25 - rLeft (contRect v),
               handTop := targetY - rHeight (handRect hand) * 0.15 - rTop (contRect v),
               handOpacity := 1,
               handTimeout := True\<rparr>)\<rparr>)"

text \<open>\<^verbatim>\<open>revealAction(spec)\<close>\<close>

definition revealAction :: "syncedVideoView \<Rightarrow> actionSpec \<Rightarrow> syncedVideoView outcome" where
  "revealAction v spec =
     (if specViewId spec \<noteq> viewId v then
        (if specType spec = ''video'' then
           Returns (useHandToPoint v
             (specX spec * rWidth (videoRect v) + rLeft (videoRect v))
             (specY spec * rHeight (videoRect v) + rTop (videoRect v)))
         else if specType spec = ''timebar'' then
           Returns (useHandToPoint v
             (specX spec * rWidth (timebarRect v) + rLeft (timebarRect v))
             (specY spec * rHeight (timebarRect v) + rTop (timebarRect v)))
         else Throws UnknownActionType v)
      else Returns v)"

text \<open>
  \<^verbatim>\<open>calculateVideoTime()\<close>. Reading \<^verbatim>\<open>this.latestPlayState\<close> before one is stored is
  a TypeError; a \<^verbatim>\<open>null\<close> start offset counts as 0 in the subtraction.
\<close>

definition calculateVideoTime :: "syncedVideoView \<Rightarrow> real \<Rightarrow> error + real" where
  "calculateVideoTime v now =
     (case latestPlayState v of
        None \<Rightarrow> Inl TypeError
      | Some st \<Rightarrow> Inr ((now - orZero (startOffset st)) / 1000))"

text \<open>
  The last statement of \<^verbatim>\<open>applyPlayState\<close>:
  \<^verbatim>\<open>if (this.latestActionSpec) this.revealAction(this.latestActionSpec);\<close>
\<close>

definition revealLatest :: "syncedVideoView \<Rightarrow> syncedVideoView outcome" where
  "revealLatest v =
     (case latestActionSpec v of
        None \<Rightarrow> Returns v
      | Some spec \<Rightarrow> revealAction v spec)"

text \<open>
  \<^verbatim>\<open>applyPlayState()\<close>, up to the call of \<^verbatim>\<open>videoView.play\<close>: the function passed to
  \<^verbatim>\<open>then\<close> runs in a later turn, when the browser has settled the promise, and is
  not part of this function's effect.
\<close>

definition applyPlayState :: "syncedVideoView \<Rightarrow> real \<Rightarrow> syncedVideoView outcome" where
  "applyPlayState v now =
     (case videoView v of
        None \<Rightarrow> Returns v
      | Some vv \<Rightarrow>
          if waitingForSync v then Returns v
          else (case latestPlayState v of
            None \<Rightarrow> Throws TypeError v
          | Some st \<Rightarrow>
              if \<not> isPlaying st then
                (let v1 = iconVisible EnableSound False (iconVisible Play True v)
                 in case pause vv (Some (pausedTime st)) of
                      None \<Rightarrow> Hangs
                    | Some vv' \<Rightarrow> revealLatest (v1\<lparr>videoView := Some vv'\<rparr>))
              else
                (let vv1 = vv\<lparr>video := setPlaybackRate (1 + playbackBoost v * 0.01) (video vv)\<rparr>;
                     v1 = (iconVisible Play False v)
                            \<lparr>videoView := Some vv1, lastRateAdjust := Some now,
                              jumpIfNeeded := False\<rparr>
                 in case calculateVideoTime v1 now of
                      Inl e \<Rightarrow> Throws e v1
                    | Inr t \<Rightarrow>
                        (case playStart vv1 (t + 0.1) of
                           None \<Rightarrow> Hangs
                         | Some vv' \<Rightarrow> revealLatest (v1\<lparr>videoView := Some vv'\<rparr>)))))"

text \<open>
  \<^verbatim>\<open>playStateChanged(rawData)\<close>. Every event argument in this code has the three keys
  \<^verbatim>\<open>isPlaying\<close>, \<^verbatim>\<open>startOffset\<close> and \<^verbatim>\<open>pausedTime\<close> once \<^verbatim>\<open>actionSpec\<close> is deleted,
  so \<^verbatim>\<open>Object.keys(data).every(...)\<close> compares these three.
\<close>

definition playStateChanged :: "syncedVideoView \<Rightarrow> real \<Rightarrow> payload \<Rightarrow> syncedVideoView outcome" where
  "playStateChanged v now rawData =
     (let data = \<lparr>isPlaying = isPlaying rawData, startOffset = startOffset rawData,
                   pausedTime = pausedTime rawData\<rparr>;
          v1 = v\<lparr>latestActionSpec := actionSpec rawData\<rparr>
      in if (case latestPlayState v1 of
               None \<Rightarrow> False
             | Some latest \<Rightarrow>
                 isPlaying data = isPlaying latest \<and> startOffset data = startOffset latest \<and>
                 pausedTime data = pausedTime latest)
         then Returns v1
         else applyPlayState (v1\<lparr>latestPlayState := Some data\<rparr>) now)"

text \<open>\<^verbatim>\<open>handleSyncState(isSynced)\<close>\<close>

definition handleSyncState :: "syncedVideoView \<Rightarrow> real \<Rightarrow> bool \<Rightarrow> syncedVideoView outcome" where
  "handleSyncState v now isSynced =
     (let wasWaiting = waitingForSync v;
          v1 = v\<lparr>waitingForSync := \<not> isSynced\<rparr>
      in if wasWaiting \<and> isSynced then applyPlayState v1 now else Returns v1)"

text \<open>\<^verbatim>\<open>triggerJumpCheck()\<close>\<close>

definition triggerJumpCheck :: "syncedVideoView \<Rightarrow> syncedVideoView" where
  "triggerJumpCheck v = v\<lparr>jumpIfNeeded := True\<rparr>"

text \<open>
  \<^verbatim>\<open>handleUserClick(evt)\<close>. The result pairs the view with the argument of the
  \<^verbatim>\<open>setPlayState\<close> event the handler publishes, if it gets that far. \<open>offsetX\<close> and
  \<open>offsetY\<close> are the event's. The quotients \<open>x\<close> and \<open>y\<close> of the action spec only
  place the remote-hand icon; for a video rectangle of width or height 0 JavaScript
  yields an infinity or NaN there, which the model does not follow.
\<close>

definition handleUserClick ::
  "syncedVideoView \<Rightarrow> real \<Rightarrow> real \<Rightarrow> real \<Rightarrow> (syncedVideoView \<times> payload option) outcome" where
  "handleUserClick v now offsetX offsetY =
     (case videoView v of
        None \<Rightarrow> Returns (v, None)
      | Some vv \<Rightarrow>
          if isStepping v then
            (case applyPlayState
                    (v\<lparr>videoView := Some (vv\<lparr>video := setMuted False (video vv)\<rparr>),
                       isStepping := False\<rparr>) now of
               Returns v' \<Rightarrow> Returns (v', None)
             | Throws e v' \<Rightarrow> Throws e (v', None)
             | Hangs \<Rightarrow> Hangs
             | NotANumber \<Rightarrow> NotANumber)
          else if muted (video vv) then
            Returns (iconVisible EnableSound False
                       (v\<lparr>videoView := Some (vv\<lparr>video := setMuted False (video vv)\<rparr>)\<rparr>), None)
          else (case latestPlayState v of
            None \<Rightarrow> Throws TypeError (v, None)
          | Some st \<Rightarrow>
              (let wantsToPlay = \<not> isPlaying st
               in case (if \<not> wantsToPlay then pause vv None else Some vv) of
                    None \<Rightarrow> Hangs
                  | Some vv1 \<Rightarrow>
                      (let videoTime = currentTime (video vv1);
                           sessionTime = now;
                           startOffset' = (if wantsToPlay then Some (sessionTime - 1000 * videoTime)
                                           else None);
                           pausedTime' = (if wantsToPlay then 0 else videoTime)
                       in case playStateChanged (v\<lparr>videoView := Some vv1\<rparr>) now
                                 \<lparr>isPlaying = wantsToPlay, startOffset = startOffset',
                                   pausedTime = pausedTime', actionSpec = None\<rparr> of
                            Returns v' \<Rightarrow>
                              Returns (v', Some
                                \<lparr>isPlaying = wantsToPlay, startOffset = startOffset',
                                  pausedTime = pausedTime',
                                  actionSpec = Some
                                    \<lparr>specViewId = viewId v', specType = ''video'',
                                      specX = (offsetX + rLeft (contRect v') - rLeft (videoRect v'))
                                                / rWidth (videoRect v'),
                                      specY = (offsetY + rTop (contRect v') - rTop (videoRect v'))
                                                / rHeight (videoRect v')\<rparr>\<rparr>)
                          | Throws e v' \<Rightarrow> Throws e (v', None)
                          | Hangs \<Rightarrow> Hangs
                          | NotANumber \<Rightarrow> NotANumber))))"

text \<open>
  \<^verbatim>\<open>handleTimebar(proportion)\<close>. \<^verbatim>\<open>this.videoView.duration * proportion\<close> is NaN when
  the duration is unset.
\<close>

definition handleTimebar ::
  "syncedVideoView \<Rightarrow> real \<Rightarrow> real \<Rightarrow> (syncedVideoView \<times> payload option) outcome" where
  "handleTimebar v now proportion =
     (case videoView v of
        None \<Rightarrow> Returns (v, None)
      | Some vv \<Rightarrow>
          (case duration vv of
             None \<Rightarrow> NotANumber
           | Some d \<Rightarrow>
               (let wantsToPlay = False;
                    videoTime = d * proportion;
                    startOffset' = None;
                    pausedTime' = videoTime
                in case playStateChanged v now
                          \<lparr>isPlaying = wantsToPlay, startOffset = startOffset',
                            pausedTime = pausedTime', actionSpec = None\<rparr> of
                     Returns v' \<Rightarrow>
                       Returns (v', Some
                         \<lparr>isPlaying = wantsToPlay, startOffset = startOffset',
                           pausedTime = pausedTime',
                           actionSpec = Some
                             \<lparr>specViewId = viewId v', specType = ''timebar'',
                               specX = proportion, specY = 0.5\<rparr>\<rparr>)
                   | Throws e v' \<Rightarrow> Throws e (v', None)
                   | Hangs \<Rightarrow> Hangs
                   | NotANumber \<Rightarrow> NotANumber)))"

subsection \<open>TimeBarView\<close>

text \<open>
  The timebar canvas: its width in pixels and the last proportion a drag reported
  (\<^verbatim>\<open>null\<close> at first).
\<close>

record timeBarView =
  barWidth :: real
  lastDragProportion :: "real option"

text \<open>
  \<^verbatim>\<open>Math.max(0, Math.min(1, offsetX / barWidth))\<close>. For a width of 0 the quotient is
  an infinity, which the clamp brings to 1 or to 0, or it is NaN (\<open>None\<close>) for 0 / 0.
\<close>

definition timeProportion :: "real \<Rightarrow> real \<Rightarrow> real option" where
  "timeProportion offsetX w =
     (if w = 0 then (if 0 < offsetX then Some 1 else if offsetX < 0 then Some 0 else None)
      else Some (max 0 (min 1 (offsetX / w))))"

text \<open>\<^verbatim>\<open>dragAtOffset(offsetX)\<close>, where \<^verbatim>\<open>this.rootView\<close> is the view \<open>v\<close>.\<close>

definition dragAtOffset ::
  "timeBarView \<Rightarrow> syncedVideoView \<Rightarrow> real \<Rightarrow> real
     \<Rightarrow> (timeBarView \<times> syncedVideoView \<times> payload option) outcome" where
  "dragAtOffset tb v now offsetX =
     (case timeProportion offsetX (barWidth tb) of
        None \<Rightarrow> NotANumber
      | Some p \<Rightarrow>
          if lastDragProportion tb = Some p then Returns (tb, v, None)
          else (let tb' = tb\<lparr>lastDragProportion := Some p\<rparr>
                in case handleTimebar v now p of
                     Returns (v', pub) \<Rightarrow> Returns (tb', v', pub)
                   | Throws e (v', pub) \<Rightarrow> Throws e (tb', v', pub)
                   | Hangs \<Rightarrow> Hangs
                   | NotANumber \<Rightarrow> NotANumber))"

subsection \<open>The periodic check\<close>

text \<open>
  \<^verbatim>\<open>adjustPlaybar()\<close> reads the time to show and draws it on the timebar canvas. The
  canvas is written by nothing else in the view and read by nothing, and is left out;
  what remains is the time read, which is a TypeError when the video is not playing
  and no play state is stored.
\<close>

definition adjustPlaybar :: "syncedVideoView \<Rightarrow> video2d \<Rightarrow> error + real" where
  "adjustPlaybar v vv =
     (if isPlaying2D vv then Inr (currentTime (video vv))
      else (case latestPlayState v of
              None \<Rightarrow> Inl TypeError
            | Some st \<Rightarrow> Inr (if pausedTime st \<noteq> 0 then pausedTime st else 0)))"

text \<open>
  The constant \<^verbatim>\<open>desiredBoostPercent\<close> of \<^verbatim>\<open>checkPlayStatus\<close>, as a function of
  \<^verbatim>\<open>videoDiffMS\<close>.
\<close>

definition desiredBoost :: "real \<Rightarrow> real" where
  "desiredBoost videoDiffMS =
     (let diffAbs = \<bar>videoDiffMS\<bar>;
          diffSign = sgn videoDiffMS
      in - diffSign * (if diffAbs > 150 then 3 else (if diffAbs > 50 then 1 else 0)))"

text \<open>
  The rate adjustment inside \<^verbatim>\<open>checkPlayStatus\<close>: the body of
  \<^verbatim>\<open>if (now - lastRateAdjust >= 3000)\<close> up to the assignment of \<^verbatim>\<open>lastRateAdjust\<close>.
\<close>

definition adjustRate :: "syncedVideoView \<Rightarrow> video2d \<Rightarrow> real \<Rightarrow> syncedVideoView" where
  "adjustRate v vv videoDiffMS =
     (let oldBoostPercent = playbackBoost v;
          diffAbs = \<bar>videoDiffMS\<bar>;
          diffSign = sgn videoDiffMS;
          desiredBoostPercent = desiredBoost videoDiffMS
      in if desiredBoostPercent \<noteq> oldBoostPercent then
           (let hysteresisBlock =
                  (desiredBoostPercent = 0 \<and> sgn oldBoostPercent = - diffSign \<and> diffAbs \<ge> 25)
            in if \<not> hysteresisBlock then
                 v\<lparr>playbackBoost := desiredBoostPercent,
                   videoView := Some (vv\<lparr>video :=
                     setPlaybackRate (1 + desiredBoostPercent * 0.01) (video vv)\<rparr>)\<rparr>
               else v)
         else v)"

text \<open>\<^verbatim>\<open>checkPlayStatus()\<close>\<close>

definition checkPlayStatus :: "syncedVideoView \<Rightarrow> real \<Rightarrow> syncedVideoView outcome" where
  "checkPlayStatus v now =
     (case videoView v of
        None \<Rightarrow> Returns v
      | Some vv \<Rightarrow>
          (case adjustPlaybar v vv of
             Inl e \<Rightarrow> Throws e v
           | Inr shown \<Rightarrow>
               (let lastTimingCheck' = orZero (lastTimingCheck v)
                in if isPlaying2D vv \<and> \<not> isBlocked2D vv \<and> now - lastTimingCheck' \<ge> 500 then
                     (let v1 = v\<lparr>lastTimingCheck := Some now\<rparr>
                      in case calculateVideoTime v1 now of
                           Inl e \<Rightarrow> Throws e v1
                         | Inr t \<Rightarrow>
                             (case wrappedTime vv t False of
                                None \<Rightarrow> Hangs
                              | Some expectedTime \<Rightarrow>
                                  (let videoTime = currentTime (video vv);
                                       videoDiff = videoTime - expectedTime;
                                       videoDiffMS = videoDiff * 1000
                                   in if (case duration vv of
                                            None \<Rightarrow> False
                                          | Some d \<Rightarrow> videoDiff < d / 2) then
                                        (if jumpIfNeeded v1 then
                                           (let v2 = v1\<lparr>jumpIfNeeded := False\<rparr>
                                            in if \<bar>videoDiffMS\<bar> > 500 then
                                                 (case wrappedTime vv (videoTime - videoDiff + 0.1) True of
                                                    None \<Rightarrow> Hangs
                                                  | Some w \<Rightarrow>
                                                      Returns (v2\<lparr>videoView := Some
                                                        (vv\<lparr>video := setCurrentTime w (video vv)\<rparr>)\<rparr>))
                                               else Returns v2)
                                         else
                                           (let lastRateAdjust' = orZero (lastRateAdjust v1)
                                            in if now - lastRateAdjust' \<ge> 3000 then
                                                 Returns ((adjustRate v1 vv videoDiffMS)
                                                            \<lparr>lastRateAdjust := Some now\<rparr>)
                                               else Returns v1))
                                      else Returns v1)))
                   else Returns v)))"

text \<open>\<^verbatim>\<open>update()\<close>, invoked on every animation frame.\<close>

definition update :: "syncedVideoView \<Rightarrow> real \<Rightarrow> syncedVideoView outcome" where
  "update v now =
     (if now - lastStatusCheck v > 100 then checkPlayStatus (v\<lparr>lastStatusCheck := now\<rparr>) now
      else Returns v)"

subsection \<open>Runs of ticks, and the states the model can reach\<close>

text \<open>The number of assignments to \<^verbatim>\<open>video.currentTime\<close> the view has issued so far.\<close>

fun isSeek :: "elemCommand \<Rightarrow> bool" where
  "isSeek (SetCurrentTime t) = True"
| "isSeek c = False"

definition seeksIssued :: "syncedVideoView \<Rightarrow> nat" where
  "seeksIssued v =
     (case videoView v of
        None \<Rightarrow> 0
      | Some vv \<Rightarrow> length (filter isSeek (issued (video vv))))"

text \<open>
  A run of \<^verbatim>\<open>checkPlayStatus\<close> ticks. Before each tick anything may happen to the view
  (the video advances, other handlers run): the function \<open>env\<close> of the tick. The
  result counts the seeks that the ticks themselves issue: a tick only appends to the
  list of commands, so the difference of the counts after and before it is the number
  of its seeks. A tick that throws leaves the view as it was at the throw; nothing
  runs after a tick that does not return.
\<close>

fun jumpSeeks ::
  "syncedVideoView \<Rightarrow> ((syncedVideoView \<Rightarrow> syncedVideoView) \<times> real) list \<Rightarrow> nat" where
  "jumpSeeks v [] = 0"
| "jumpSeeks v ((env, now) # rest) =
     (case checkPlayStatus (env v) now of
        Returns v' \<Rightarrow> (seeksIssued v' - seeksIssued (env v)) + jumpSeeks v' rest
      | Throws e v' \<Rightarrow> jumpSeeks v' rest
      | Hangs \<Rightarrow> 0
      | NotANumber \<Rightarrow> 0)"

text \<open>An \<open>env\<close> that does not arm the jump check.\<close>

definition keepsDisarmed :: "(syncedVideoView \<Rightarrow> syncedVideoView) \<Rightarrow> bool" where
  "keepsDisarmed env = (\<forall>u. jumpIfNeeded (env u) \<longrightarrow> jumpIfNeeded u)"

text \<open>
  The states of the replicated model that the code can produce, together with the
  assets added so far, latest first: \<^verbatim>\<open>addAsset\<close> from any state, and
  \<^verbatim>\<open>setPlayState\<close> with what a participant's view publishes on a click
  (\<^verbatim>\<open>handleUserClick\<close>) or on a drag of the timebar (\<^verbatim>\<open>dragAtOffset\<close>, the only caller
  of \<^verbatim>\<open>handleTimebar\<close>). \<open>dur a\<close> is the duration of the video that the descriptor
  \<open>a\<close> names. \<^verbatim>\<open>setPlayState\<close> stores whatever arrives: the publishing view has the
  video of some asset added so far loaded, which need not be the asset the model
  names now, since an \<^verbatim>\<open>addAsset\<close> of another participant can be ordered between
  the action and its \<^verbatim>\<open>setPlayState\<close>. The element's current time lies between 0 and
  the duration of its own video, as the browser keeps it.
\<close>

inductive reachable :: "('a \<Rightarrow> real) \<Rightarrow> 'a list \<Rightarrow> 'a syncedVideoModel \<Rightarrow> bool"
  for dur :: "'a \<Rightarrow> real" where
  first: "reachable dur [a] (fst (addAsset m a))"
| added: "reachable dur assets m \<Longrightarrow> reachable dur (a # assets) (fst (addAsset m a))"
| clicked:
    "reachable dur assets m \<Longrightarrow> b \<in> set assets \<Longrightarrow>
     videoView v = Some vv \<Longrightarrow> duration vv = Some (dur b) \<Longrightarrow>
     0 \<le> currentTime (video vv) \<Longrightarrow> currentTime (video vv) \<le> dur b \<Longrightarrow>
     handleUserClick v now offsetX offsetY = Returns (v', Some p) \<Longrightarrow>
     reachable dur assets (fst (setPlayState m p))"
| scrubbed:
    "reachable dur assets m \<Longrightarrow> b \<in> set assets \<Longrightarrow>
     videoView v = Some vv \<Longrightarrow> duration vv = Some (dur b) \<Longrightarrow>
     dragAtOffset tb v now offsetX = Returns (tb', v', Some p) \<Longrightarrow>
     reachable dur assets (fst (setPlayState m p))"

subsection \<open>Example states\<close>

text \<open>
  A participant \<open>''me''\<close> with a loaded video of 60 seconds, paused at the start, and
  nothing pending; the examples below start from it.
\<close>

definition demoElem :: videoElem where
  "demoElem = \<lparr>currentTime = 0, playbackRate = 1, muted = False, issued = []\<rparr>"

definition demoVideo :: "real \<Rightarrow> video2d" where
  "demoVideo d = \<lparr>duration = Some d, isPlaying2D = False, isBlocked2D = False, video = demoElem\<rparr>"

definition demoRect :: rect where
  "demoRect = \<lparr>rLeft = 0, rTop = 0, rWidth = 100, rHeight = 100\<rparr>"

definition demoView :: syncedVideoView where
  "demoView =
     \<lparr>viewId = ''me'', videoView = Some (demoVideo 60),
      latestPlayState = Some \<lparr>isPlaying = False, startOffset = None, pausedTime = 0\<rparr>,
      latestActionSpec = None, waitingForSync = False, playbackBoost = 0,
      lastTimingCheck = None, lastRateAdjust = None, jumpIfNeeded = False,
      isStepping = False, lastStatusCheck = 0, playIcon = 1, enableSoundIcon = 0,
      remoteHandIcon = None, videoRect = demoRect, timebarRect = demoRect,
      contRect = demoRect\<rparr>"

text \<open>
  The same participant while the video plays: play started at session time 0, the
  element is at \<open>ct\<close> seconds, and the rate boost is \<open>boost\<close> percent.
\<close>

definition demoPlaying :: "real \<Rightarrow> real \<Rightarrow> syncedVideoView" where
  "demoPlaying ct boost =
     demoView\<lparr>videoView := Some ((demoVideo 60)\<lparr>isPlaying2D := True,
                  video := demoElem\<lparr>currentTime := ct\<rparr>\<rparr>),
       latestPlayState := Some \<lparr>isPlaying = True, startOffset = Some 0, pausedTime = 0\<rparr>,
       playbackBoost := boost\<rparr>"

text \<open>What the browser does between two ticks: the element has moved on to \<open>ct\<close>.\<close>

definition videoAt :: "real \<Rightarrow> syncedVideoView \<Rightarrow> syncedVideoView" where
  "videoAt ct u =
     u\<lparr>videoView := map_option (\<lambda>vv. vv\<lparr>video := (video vv)\<lparr>currentTime := ct\<rparr>\<rparr>) (videoView u)\<rparr>"

text \<open>
  A session with two assets, \<open>''film''\<close> of 60 seconds and \<open>''clip''\<close> of 10 seconds:
  the model before any asset is added, and a timebar 200 pixels wide.
\<close>

definition demoDur :: "string \<Rightarrow> real" where
  "demoDur a = (if a = ''film'' then 60 else 10)"

definition demoModel :: "string syncedVideoModel" where
  "demoModel = \<lparr>isPlaying = False, startOffset = None, pausedTime = 0, assetDescriptor = None\<rparr>"

definition demoTimebar :: timeBarView where
  "demoTimebar = \<lparr>barWidth = 200, lastDragProportion = None\<rparr>"

section \<open>Properties\<close>

subsection \<open>The loop of wrappedTime\<close>

text \<open>
  For a positive duration the loop ends, and its result has a closed form: a time up
  to the duration is returned as it is, a later one minus the whole durations below it.
\<close>

lemma wrapLoop_le: "t \<le> d \<Longrightarrow> wrapLoop t d = Some t"
  by (subst wrapLoop.simps) simp

lemma wrapLoop_gt: "d < t \<Longrightarrow> wrapLoop t d = wrapLoop (t - d) d"
  by (subst wrapLoop.simps) simp

lemma wrapLoop_pos:
  "0 < d \<Longrightarrow> wrapLoop t d = Some (if t \<le> d then t else t - d * of_int (\<lceil>t / d\<rceil> - 1))"
proof (induction "nat \<lceil>t / d\<rceil>" arbitrary: t rule: less_induct)
  case less
  show ?case
  proof (cases "t \<le> d")
    case True
    then show ?thesis by (simp add: wrapLoop_le)
  next
    case False
    then have gt: "d < t" by simp
    have ceil: "\<lceil>(t - d) / d\<rceil> = \<lceil>t / d\<rceil> - 1"
      using less.prems by (simp add: diff_divide_distrib)
    have "1 < t / d" using gt less.prems by simp
    then have two: "2 \<le> \<lceil>t / d\<rceil>" by linarith
    then have "nat \<lceil>(t - d) / d\<rceil> < nat \<lceil>t / d\<rceil>" using ceil by linarith
    from less.hyps[OF this less.prems]
    have ih: "wrapLoop (t - d) d =
        Some (if t - d \<le> d then t - d else t - d - d * of_int (\<lceil>(t - d) / d\<rceil> - 1))" .
    show ?thesis
    proof (cases "t - d \<le> d")
      case True
      then have "t / d \<le> 2" using less.prems by (simp add: field_simps)
      then have "\<lceil>t / d\<rceil> \<le> 2" by (simp add: ceiling_le_iff)
      with two have "\<lceil>t / d\<rceil> = 2" by linarith
      then show ?thesis using gt ih True by (simp add: wrapLoop_gt)
    next
      case F2: False
      then show ?thesis using gt ih ceil by (simp add: wrapLoop_gt algebra_simps)
    qed
  qed
qed

lemma specMod_zero_iff: "0 < d \<Longrightarrow> specMod t d = 0 \<longleftrightarrow> of_int \<lfloor>t / d\<rfloor> = t / d"
  by (auto simp: specMod_def field_simps)

lemma wrapLoop_specMod:
  assumes d: "0 < d" and t: "0 \<le> t"
  shows "wrapLoop t d = Some (if 0 < t \<and> specMod t d = 0 then d else specMod t d)"
proof (cases "of_int \<lfloor>t / d\<rfloor> = t / d")
  case True
  then have z: "specMod t d = 0" using d by (simp add: specMod_zero_iff)
  from True have c: "\<lceil>t / d\<rceil> = \<lfloor>t / d\<rfloor>"
    by (metis ceiling_of_int)
  have "d * of_int \<lfloor>t / d\<rfloor> = d * (t / d)"
    by (rule arg_cong[where f = "\<lambda>x. d * x", OF True])
  also have "\<dots> = t" using d by simp
  finally have td: "t = d * of_int \<lfloor>t / d\<rfloor>" by simp
  show ?thesis
  proof (cases "t \<le> d")
    case le: True
    show ?thesis
    proof (cases "t = 0")
      case True
      then show ?thesis using d z by (simp add: wrapLoop_le)
    next
      case False
      then have "0 < t / d" "t / d \<le> 1" using t d le by simp_all
      then have "\<lfloor>t / d\<rfloor> = 1" using True by linarith
      then have "t = d" using td by simp
      then show ?thesis using d z by (simp add: wrapLoop_le)
    qed
  next
    case False
    then have "0 < t" using d by simp
    moreover have "t - d * of_int (\<lceil>t / d\<rceil> - 1) = d"
      using td c by (simp add: algebra_simps)
    ultimately show ?thesis using False d z by (simp add: wrapLoop_pos)
  qed
next
  case False
  then have nz: "specMod t d \<noteq> 0" using d by (simp add: specMod_zero_iff)
  from False have c: "\<lceil>t / d\<rceil> = \<lfloor>t / d\<rfloor> + 1"
    by (simp add: ceiling_altdef)
  show ?thesis
  proof (cases "t \<le> d")
    case True
    have "t / d \<noteq> 1" using False by auto
    then have "t \<noteq> d" using d by auto
    then have "t / d < 1" "0 \<le> t / d" using True d t by simp_all
    then have "\<lfloor>t / d\<rfloor> = 0" by linarith
    then have "specMod t d = t" by (simp add: specMod_def)
    then show ?thesis using True nz by (simp add: wrapLoop_le)
  next
    case F: False
    then show ?thesis using d nz c by (simp add: wrapLoop_pos specMod_def)
  qed
qed

lemma specMod_range: "0 < d \<Longrightarrow> 0 \<le> specMod t d \<and> specMod t d < d"
proof -
  assume d: "0 < d"
  have "of_int \<lfloor>t / d\<rfloor> \<le> t / d" "t / d < of_int \<lfloor>t / d\<rfloor> + 1" by linarith+
  then have "of_int \<lfloor>t / d\<rfloor> * d \<le> t" "t < (of_int \<lfloor>t / d\<rfloor> + 1) * d"
    using d by (simp_all only: pos_le_divide_eq pos_divide_less_eq)
  then show ?thesis by (simp add: specMod_def algebra_simps)
qed


lemma wrappedTime_pos:
  "duration vv = Some d \<Longrightarrow> 0 < d \<Longrightarrow>
   wrappedTime vv t guarded =
     Some (if guarded then min (d - 0.1) (if t \<le> d then t else t - d * of_int (\<lceil>t / d\<rceil> - 1))
           else (if t \<le> d then t else t - d * of_int (\<lceil>t / d\<rceil> - 1)))"
  by (simp add: wrappedTime_def wrapLoop_pos)

lemma wrappedTime_total:
  assumes "case duration vv of None \<Rightarrow> True | Some d \<Rightarrow> 0 \<le> d"
  shows "\<exists>w. wrappedTime vv t guarded = Some w"
proof (cases "duration vv")
  case None
  then show ?thesis by (simp add: wrappedTime_def)
next
  case (Some d)
  show ?thesis
  proof (cases "d = 0")
    case True
    then show ?thesis using Some by (simp add: wrappedTime_def)
  next
    case False
    then have "0 < d" using assms Some by simp
    then show ?thesis using Some by (simp add: wrappedTime_pos)
  qed
qed

subsection \<open>Wrapped time\<close>

text \<open>
  C1 (amended). For a known duration \<open>d > 0\<close> and \<open>t \<ge> 0\<close>, the unguarded
  \<^verbatim>\<open>wrappedTime\<close> returns a value in the closed interval \<open>[0, d]\<close>: it is \<open>t mod d\<close>,
  except that a positive whole multiple of \<open>d\<close> yields \<open>d\<close> and not 0, the loop test
  being \<^verbatim>\<open>videoTime > this.duration\<close>. The guarded variant returns a value that is at
  most \<open>d - 0.1\<close>, so never one strictly between \<open>d - 0.1\<close> and \<open>d\<close>.
\<close>

theorem wrappedTime_range:
  assumes dur: "duration vv = Some d" and d: "0 < d" and t: "0 \<le> t"
  shows "(\<exists>r. wrappedTime vv t False = Some r \<and> 0 \<le> r \<and> r \<le> d \<and>
              r = (if 0 < t \<and> specMod t d = 0 then d else specMod t d)) \<and>
         (\<exists>g. wrappedTime vv t True = Some g \<and> g \<le> d - 0.1 \<and> \<not> (d - 0.1 < g \<and> g < d))"
proof -
  let ?r = "if 0 < t \<and> specMod t d = 0 then d else specMod t d"
  have loop: "wrapLoop t d = Some ?r" using d t by (rule wrapLoop_specMod)
  have range: "0 \<le> ?r \<and> ?r \<le> d" using specMod_range[OF d, of t] d by auto
  have d0: "d \<noteq> 0" using d by simp
  have u: "wrappedTime vv t False = Some ?r"
    unfolding wrappedTime_def using dur d0 loop by simp
  have g: "wrappedTime vv t True = Some (min (d - 0.1) ?r)"
    unfolding wrappedTime_def using dur d0 loop by simp
  have "min (d - 0.1) ?r \<le> d - 0.1" by simp
  with u g range show ?thesis by auto
qed

theorem wrappedTime_range_witness:
  "(\<exists>r. wrappedTime \<lparr>duration = Some 10, isPlaying2D = False, isBlocked2D = False,
           video = \<lparr>currentTime = 0, playbackRate = 1, muted = False, issued = []\<rparr>\<rparr> 25 False = Some r \<and>
        0 \<le> r \<and> r \<le> 10 \<and> r = (if 0 < (25::real) \<and> specMod 25 10 = 0 then 10 else specMod 25 10)) \<and>
   (\<exists>g. wrappedTime \<lparr>duration = Some 10, isPlaying2D = False, isBlocked2D = False,
           video = \<lparr>currentTime = 0, playbackRate = 1, muted = False, issued = []\<rparr>\<rparr> 25 True = Some g \<and>
        g \<le> 10 - 0.1 \<and> \<not> (10 - 0.1 < g \<and> g < 10))"
  using wrappedTime_range[of "\<lparr>duration = Some 10, isPlaying2D = False, isBlocked2D = False,
           video = \<lparr>currentTime = 0, playbackRate = 1, muted = False, issued = []\<rparr>\<rparr>" 10 25]
  by simp

text \<open>
  At \<open>t = d = 10\<close> the unguarded result is 10: outside \<open>[0, 10)\<close>, and not
  \<open>10 mod 10 = 0\<close>.
\<close>

theorem wrappedTime_range_counterexample:
  "wrappedTime \<lparr>duration = Some 10, isPlaying2D = False, isBlocked2D = False,
       video = \<lparr>currentTime = 0, playbackRate = 1, muted = False, issued = []\<rparr>\<rparr> 10 False = Some 10 \<and>
   \<not> (10 < (10::real)) \<and> specMod 10 10 \<noteq> 10"
  by (simp add: wrappedTime_def wrapLoop_le specMod_def)

text \<open>
  C10. While the duration is unset or 0, \<^verbatim>\<open>wrappedTime\<close> returns its argument
  unchanged, guarded or not.
\<close>

theorem wrappedTime_unknown_duration:
  "duration vv = None \<or> duration vv = Some 0 \<Longrightarrow> wrappedTime vv t guarded = Some t"
  by (auto simp: wrappedTime_def)

theorem wrappedTime_unknown_duration_witness:
  "wrappedTime \<lparr>duration = None, isPlaying2D = False, isBlocked2D = False,
       video = \<lparr>currentTime = 0, playbackRate = 1, muted = False, issued = []\<rparr>\<rparr> 7 True = Some 7 \<and>
   wrappedTime \<lparr>duration = Some 0, isPlaying2D = False, isBlocked2D = False,
       video = \<lparr>currentTime = 0, playbackRate = 1, muted = False, issued = []\<rparr>\<rparr> 7 False = Some 7"
  using wrappedTime_unknown_duration[of "\<lparr>duration = None, isPlaying2D = False, isBlocked2D = False,
       video = \<lparr>currentTime = 0, playbackRate = 1, muted = False, issued = []\<rparr>\<rparr>" 7 True]
    wrappedTime_unknown_duration[of "\<lparr>duration = Some 0, isPlaying2D = False, isBlocked2D = False,
       video = \<lparr>currentTime = 0, playbackRate = 1, muted = False, issued = []\<rparr>\<rparr>" 7 False]
  by simp

subsection \<open>setStatic\<close>

text \<open>
  C9. \<^verbatim>\<open>setStatic(t)\<close> returns (a media duration is not negative), leaves
  \<^verbatim>\<open>isPlaying\<close> and \<^verbatim>\<open>isBlocked\<close> as they were, and pauses the element; when \<open>t\<close>
  is defined it first sets \<^verbatim>\<open>currentTime\<close> to the guarded wrapped time, and otherwise
  does not seek.
\<close>

theorem setStatic_frame:
  assumes "case duration vv of None \<Rightarrow> True | Some d \<Rightarrow> 0 \<le> d"
  shows "\<exists>vv'. setStatic vv t = Some vv' \<and>
           isPlaying2D vv' = isPlaying2D vv \<and> isBlocked2D vv' = isBlocked2D vv \<and>
           duration vv' = duration vv \<and>
           (case t of
              None \<Rightarrow> currentTime (video vv') = currentTime (video vv) \<and>
                       issued (video vv') = issued (video vv) @ [ElemPause]
            | Some x \<Rightarrow> wrappedTime vv x True = Some (currentTime (video vv')) \<and>
                        issued (video vv') =
                          issued (video vv) @ [SetCurrentTime (currentTime (video vv')), ElemPause])"
proof (cases t)
  case None
  then show ?thesis by (simp add: setStatic_def elemPause_def)
next
  case (Some x)
  obtain w where "wrappedTime vv x True = Some w"
    using wrappedTime_total[OF assms] by blast
  then show ?thesis using Some
    by (simp add: setStatic_def elemPause_def setCurrentTime_def)
qed

theorem setStatic_frame_witness:
  "\<exists>vv'. setStatic \<lparr>duration = Some 10, isPlaying2D = True, isBlocked2D = True,
       video = \<lparr>currentTime = 0, playbackRate = 1, muted = False, issued = []\<rparr>\<rparr> (Some 25) = Some vv' \<and>
     isPlaying2D vv' \<and> isBlocked2D vv' \<and> currentTime (video vv') = 5 \<and>
     issued (video vv') = [SetCurrentTime 5, ElemPause]"
  using setStatic_frame[of "\<lparr>duration = Some 10, isPlaying2D = True, isBlocked2D = True,
       video = \<lparr>currentTime = 0, playbackRate = 1, muted = False, issued = []\<rparr>\<rparr>" "Some 25"]
  by (auto simp: wrappedTime_pos)

subsection \<open>Applying a play state\<close>

text \<open>
  What the handlers leave alone: the icons and the pointer reveal touch neither the
  adapter nor the stored play state, and \<^verbatim>\<open>applyPlayState\<close> does not change the play
  state it applies. While the view waits for the sync signal, \<^verbatim>\<open>applyPlayState\<close> is
  the identity. The adapter's methods return for every duration that is not negative.
\<close>

lemma iconVisible_fields [simp]:
  "videoView (iconVisible n b v) = videoView v"
  "latestPlayState (iconVisible n b v) = latestPlayState v"
  "latestActionSpec (iconVisible n b v) = latestActionSpec v"
  "waitingForSync (iconVisible n b v) = waitingForSync v"
  "jumpIfNeeded (iconVisible n b v) = jumpIfNeeded v"
  "viewId (iconVisible n b v) = viewId v"
  by (simp_all add: iconVisible_def split: iconName.splits)

lemma revealAction_keeps:
  "revealAction v spec = Returns v' \<or> revealAction v spec = Throws e v' \<Longrightarrow>
   videoView v' = videoView v \<and> latestPlayState v' = latestPlayState v \<and>
   waitingForSync v' = waitingForSync v"
  by (auto simp: revealAction_def useHandToPoint_def split: if_splits option.splits)

lemma revealLatest_keeps:
  "revealLatest v = Returns v' \<or> revealLatest v = Throws e v' \<Longrightarrow>
   videoView v' = videoView v \<and> latestPlayState v' = latestPlayState v \<and>
   waitingForSync v' = waitingForSync v"
  using revealAction_keeps[of v _ v' e]
  by (auto simp: revealLatest_def split: option.splits)

lemma applyPlayState_keeps_state:
  assumes "applyPlayState v now = Returns v' \<or> applyPlayState v now = Throws e v'"
  shows "latestPlayState v' = latestPlayState v"
  using assms revealLatest_keeps
  by (auto simp: applyPlayState_def Let_def calculateVideoTime_def
           split: option.splits if_splits sum.splits)

lemma applyPlayState_waiting: "waitingForSync v \<Longrightarrow> applyPlayState v now = Returns v"
  by (simp add: applyPlayState_def split: option.splits)

lemma playStateChanged_stores:
  assumes "playStateChanged v now rawData = Returns v' \<or> playStateChanged v now rawData = Throws e v'"
  shows "\<exists>st. latestPlayState v' = Some st \<and> isPlaying st = isPlaying rawData \<and>
              startOffset st = startOffset rawData \<and> pausedTime st = pausedTime rawData"
proof (cases "case latestPlayState v of None \<Rightarrow> False
              | Some latest \<Rightarrow> isPlaying rawData = isPlaying latest \<and>
                  startOffset rawData = startOffset latest \<and> pausedTime rawData = pausedTime latest")
  case True
  then have "playStateChanged v now rawData = Returns (v\<lparr>latestActionSpec := actionSpec rawData\<rparr>)"
    by (auto simp: playStateChanged_def Let_def split: option.splits)
  with assms True show ?thesis by (auto split: option.splits)
next
  case False
  then have "playStateChanged v now rawData =
      applyPlayState (v\<lparr>latestActionSpec := actionSpec rawData,
        latestPlayState := Some \<lparr>isPlaying = isPlaying rawData, startOffset = startOffset rawData,
          pausedTime = pausedTime rawData\<rparr>\<rparr>) now"
    by (auto simp: playStateChanged_def Let_def split: option.splits)
  with assms applyPlayState_keeps_state[of _ now v' e] show ?thesis by auto
qed

lemma setStatic_total:
  assumes "case duration vv of None \<Rightarrow> True | Some d \<Rightarrow> 0 \<le> d"
  shows "\<exists>vv'. setStatic vv t = Some vv'"
  using wrappedTime_total[OF assms, of _ True]
  by (cases t) (auto simp: setStatic_def split: option.splits)

lemma playStart_total:
  assumes "case duration vv of None \<Rightarrow> True | Some d \<Rightarrow> 0 \<le> d"
  shows "\<exists>vv'. playStart vv t = Some vv'"
  using wrappedTime_total[OF assms, of t True] by (auto simp: playStart_def)

lemma pause_total:
  assumes "case duration vv of None \<Rightarrow> True | Some d \<Rightarrow> 0 \<le> d"
  shows "\<exists>vv'. pause vv t = Some vv'"
proof -
  have "case duration (vv\<lparr>isPlaying2D := False, isBlocked2D := False\<rparr>) of
          None \<Rightarrow> True | Some d \<Rightarrow> 0 \<le> d"
    using assms by simp
  from setStatic_total[OF this] show ?thesis by (simp add: pause_def)
qed

lemma revealAction_foreign_unknown:
  "specViewId spec \<noteq> viewId v \<Longrightarrow> specType spec \<noteq> ''video'' \<Longrightarrow>
   specType spec \<noteq> ''timebar'' \<Longrightarrow> revealAction v spec = Throws UnknownActionType v"
  by (simp add: revealAction_def)

lemma demo_pause10:
  "playStateChanged demoView 0 \<lparr>isPlaying = False, startOffset = None, pausedTime = 10,
       actionSpec = None\<rparr> =
     Returns (demoView\<lparr>latestPlayState := Some \<lparr>isPlaying = False, startOffset = None, pausedTime = 10\<rparr>,
       videoView := Some ((demoVideo 60)\<lparr>video := demoElem\<lparr>currentTime := 10,
         issued := [SetCurrentTime 10, ElemPause]\<rparr>\<rparr>)\<rparr>)"
  by (simp add: playStateChanged_def applyPlayState_def demoView_def demoVideo_def demoElem_def
      pause_def setStatic_def wrappedTime_def wrapLoop_le iconVisible_def revealLatest_def
      setCurrentTime_def elemPause_def)

text \<open>
  C3. A \<^verbatim>\<open>playStateChanged\<close> whose \<^verbatim>\<open>isPlaying\<close>, \<^verbatim>\<open>startOffset\<close> and \<^verbatim>\<open>pausedTime\<close>
  equal those of the stored \<^verbatim>\<open>latestPlayState\<close> returns at once: only
  \<^verbatim>\<open>latestActionSpec\<close> is overwritten, \<^verbatim>\<open>latestPlayState\<close> and the adapter stay as
  they are, and \<^verbatim>\<open>applyPlayState\<close> is not run. So the same state delivered a second
  time, after a first delivery that returned, issues no command.
\<close>

theorem playStateChanged_same_state:
  "(latestPlayState v = Some latest \<and> isPlaying rawData = isPlaying latest \<and>
    startOffset rawData = startOffset latest \<and> pausedTime rawData = pausedTime latest \<longrightarrow>
      playStateChanged v now rawData = Returns (v\<lparr>latestActionSpec := actionSpec rawData\<rparr>)) \<and>
   (playStateChanged v now rawData = Returns v1 \<longrightarrow>
      playStateChanged v1 now' rawData = Returns (v1\<lparr>latestActionSpec := actionSpec rawData\<rparr>))"
proof (intro conjI impI)
  assume "latestPlayState v = Some latest \<and> isPlaying rawData = isPlaying latest \<and>
    startOffset rawData = startOffset latest \<and> pausedTime rawData = pausedTime latest"
  then show "playStateChanged v now rawData = Returns (v\<lparr>latestActionSpec := actionSpec rawData\<rparr>)"
    by (auto simp: playStateChanged_def Let_def split: option.splits)
next
  assume "playStateChanged v now rawData = Returns v1"
  then obtain st where "latestPlayState v1 = Some st" "isPlaying st = isPlaying rawData"
      "startOffset st = startOffset rawData" "pausedTime st = pausedTime rawData"
    using playStateChanged_stores[of v now rawData v1] by blast
  then show "playStateChanged v1 now' rawData = Returns (v1\<lparr>latestActionSpec := actionSpec rawData\<rparr>)"
    by (auto simp: playStateChanged_def Let_def split: option.splits)
qed

theorem playStateChanged_same_state_witness:
  "playStateChanged demoView 5
      \<lparr>isPlaying = False, startOffset = None, pausedTime = 0, actionSpec = None\<rparr> =
     Returns (demoView\<lparr>latestActionSpec := None\<rparr>) \<and>
   playStateChanged
      (demoView\<lparr>latestPlayState := Some \<lparr>isPlaying = False, startOffset = None, pausedTime = 10\<rparr>,
         videoView := Some ((demoVideo 60)\<lparr>video := demoElem\<lparr>currentTime := 10,
           issued := [SetCurrentTime 10, ElemPause]\<rparr>\<rparr>)\<rparr>) 7
      \<lparr>isPlaying = False, startOffset = None, pausedTime = 10, actionSpec = None\<rparr> =
     Returns (demoView\<lparr>latestPlayState := Some \<lparr>isPlaying = False, startOffset = None, pausedTime = 10\<rparr>,
         videoView := Some ((demoVideo 60)\<lparr>video := demoElem\<lparr>currentTime := 10,
           issued := [SetCurrentTime 10, ElemPause]\<rparr>\<rparr>),
         latestActionSpec := None\<rparr>)"
  using playStateChanged_same_state[where v = demoView
      and latest = "\<lparr>isPlaying = False, startOffset = None, pausedTime = 0\<rparr>"
      and rawData = "\<lparr>isPlaying = False, startOffset = None, pausedTime = 0, actionSpec = None\<rparr>"
      and now = 5]
    playStateChanged_same_state[where v = demoView
      and rawData = "\<lparr>isPlaying = False, startOffset = None, pausedTime = 10, actionSpec = None\<rparr>"
      and now = 0 and now' = 7
      and latest = "\<lparr>isPlaying = False, startOffset = None, pausedTime = 0\<rparr>"
      and ?v1.0 = "demoView\<lparr>latestPlayState := Some \<lparr>isPlaying = False, startOffset = None, pausedTime = 10\<rparr>,
         videoView := Some ((demoVideo 60)\<lparr>video := demoElem\<lparr>currentTime := 10,
           issued := [SetCurrentTime 10, ElemPause]\<rparr>\<rparr>)\<rparr>"]
    demo_pause10
  by (simp add: demoView_def)

lemma revealLatest_outcome:
  "\<exists>u. outcomeState (revealLatest v) = Some u \<and> videoView u = videoView v \<and>
       waitingForSync u = waitingForSync v \<and> latestPlayState u = latestPlayState v \<and>
       lastRateAdjust u = lastRateAdjust v \<and> jumpIfNeeded u = jumpIfNeeded v"
  by (auto simp: revealLatest_def revealAction_def useHandToPoint_def split: option.splits)

text \<open>
  C7. While \<^verbatim>\<open>waitingForSync\<close> is set, \<^verbatim>\<open>applyPlayState\<close> changes nothing, and a
  \<^verbatim>\<open>playStateChanged\<close> only stores the state: the adapter gets no command. When the
  synced signal arrives, \<^verbatim>\<open>handleSyncState\<close> clears the flag and applies the stored
  state, and the adapter receives exactly the command for that state. For a paused
  state that is \<^verbatim>\<open>pause(pausedTime)\<close>: the adapter's flags are cleared, the element
  is sent a seek to the guarded wrapped time and then a pause. For a playing state it
  is \<^verbatim>\<open>play(calculateVideoTime() + 0.1)\<close> after the rate is set: the element is sent
  the playback rate, a seek to the guarded wrapped time and then a play, and the
  adapter's \<^verbatim>\<open>isPlaying\<close> is set. Whether the pointer reveal that follows returns or
  throws, the view is left with the flag cleared and the adapter in that state.
\<close>

theorem waitingForSync_defers:
  "(waitingForSync v \<longrightarrow>
      applyPlayState v now = Returns v \<and>
      (\<exists>v' st. playStateChanged v now rawData = Returns v' \<and> videoView v' = videoView v \<and>
         waitingForSync v' \<and> latestPlayState v' = Some st \<and>
         isPlaying st = isPlaying rawData \<and> startOffset st = startOffset rawData \<and>
         pausedTime st = pausedTime rawData) \<and>
      handleSyncState v now True = applyPlayState (v\<lparr>waitingForSync := False\<rparr>) now) \<and>
   (waitingForSync v \<and> videoView v = Some vv \<and> latestPlayState v = Some st \<and> \<not> isPlaying st \<and>
    (case duration vv of None \<Rightarrow> True | Some d \<Rightarrow> 0 \<le> d) \<longrightarrow>
      (\<exists>w v' u. wrappedTime vv (pausedTime st) True = Some w \<and>
         handleSyncState v now True = revealLatest v' \<and> \<not> waitingForSync v' \<and>
         videoView v' = Some (vv\<lparr>isPlaying2D := False, isBlocked2D := False,
           video := (video vv)\<lparr>currentTime := w,
             issued := issued (video vv) @ [SetCurrentTime w, ElemPause]\<rparr>\<rparr>) \<and>
         outcomeState (handleSyncState v now True) = Some u \<and> \<not> waitingForSync u \<and>
         videoView u = videoView v')) \<and>
   (waitingForSync v \<and> videoView v = Some vv \<and> latestPlayState v = Some st \<and> isPlaying st \<and>
    (case duration vv of None \<Rightarrow> True | Some d \<Rightarrow> 0 \<le> d) \<longrightarrow>
      (\<exists>w v' u. wrappedTime vv ((now - orZero (startOffset st)) / 1000 + 0.1) True = Some w \<and>
         handleSyncState v now True = revealLatest v' \<and> \<not> waitingForSync v' \<and>
         videoView v' = Some (vv\<lparr>isPlaying2D := True,
           video := (video vv)\<lparr>playbackRate := 1 + playbackBoost v * 0.01, currentTime := w,
             issued := issued (video vv) @
               [SetPlaybackRate (1 + playbackBoost v * 0.01), SetCurrentTime w, ElemPlay]\<rparr>\<rparr>) \<and>
         outcomeState (handleSyncState v now True) = Some u \<and> \<not> waitingForSync u \<and>
         videoView u = videoView v' \<and> lastRateAdjust u = Some now \<and> \<not> jumpIfNeeded u))"
proof (intro conjI impI)
  assume w: "waitingForSync v"
  show "applyPlayState v now = Returns v" using w by (rule applyPlayState_waiting)
  show "\<exists>v' st. playStateChanged v now rawData = Returns v' \<and> videoView v' = videoView v \<and>
         waitingForSync v' \<and> latestPlayState v' = Some st \<and>
         isPlaying st = isPlaying rawData \<and> startOffset st = startOffset rawData \<and>
         pausedTime st = pausedTime rawData"
    using w by (auto simp: playStateChanged_def Let_def applyPlayState_waiting split: option.splits)
  show "handleSyncState v now True = applyPlayState (v\<lparr>waitingForSync := False\<rparr>) now"
    using w by (simp add: handleSyncState_def)
next
  assume a: "waitingForSync v \<and> videoView v = Some vv \<and> latestPlayState v = Some st \<and>
    \<not> isPlaying st \<and> (case duration vv of None \<Rightarrow> True | Some d \<Rightarrow> 0 \<le> d)"
  then obtain w where w: "wrappedTime vv (pausedTime st) True = Some w"
    using wrappedTime_total[of vv "pausedTime st" True] by blast
  then have w': "wrappedTime (vv\<lparr>isPlaying2D := False, isBlocked2D := False\<rparr>) (pausedTime st) True = Some w"
    by (simp add: wrappedTime_def)
  let ?v' = "(iconVisible EnableSound False (iconVisible Play True (v\<lparr>waitingForSync := False\<rparr>)))
     \<lparr>videoView := Some (vv\<lparr>isPlaying2D := False, isBlocked2D := False,
           video := (video vv)\<lparr>currentTime := w,
             issued := issued (video vv) @ [SetCurrentTime w, ElemPause]\<rparr>\<rparr>)\<rparr>"
  have run: "handleSyncState v now True = revealLatest ?v'"
    using a w' by (simp add: handleSyncState_def applyPlayState_def pause_def setStatic_def
        setCurrentTime_def elemPause_def)
  have nw: "\<not> waitingForSync ?v'" by simp
  obtain u where u: "outcomeState (revealLatest ?v') = Some u" "videoView u = videoView ?v'"
      "waitingForSync u = waitingForSync ?v'"
    using revealLatest_outcome[of ?v'] by blast
  show "\<exists>w v' u. wrappedTime vv (pausedTime st) True = Some w \<and>
         handleSyncState v now True = revealLatest v' \<and> \<not> waitingForSync v' \<and>
         videoView v' = Some (vv\<lparr>isPlaying2D := False, isBlocked2D := False,
           video := (video vv)\<lparr>currentTime := w,
             issued := issued (video vv) @ [SetCurrentTime w, ElemPause]\<rparr>\<rparr>) \<and>
         outcomeState (handleSyncState v now True) = Some u \<and> \<not> waitingForSync u \<and>
         videoView u = videoView v'"
    using w run nw u by (intro exI[of _ w] exI[of _ ?v'] exI[of _ u]) simp
next
  assume a: "waitingForSync v \<and> videoView v = Some vv \<and> latestPlayState v = Some st \<and>
    isPlaying st \<and> (case duration vv of None \<Rightarrow> True | Some d \<Rightarrow> 0 \<le> d)"
  let ?t = "(now - orZero (startOffset st)) / 1000 + 0.1"
  let ?r = "1 + playbackBoost v * 0.01"
  obtain w where w: "wrappedTime vv ?t True = Some w"
    using a wrappedTime_total[of vv ?t True] by blast
  then have w': "wrappedTime (vv\<lparr>video := setPlaybackRate ?r (video vv)\<rparr>) ?t True = Some w"
    by (simp add: wrappedTime_def)
  let ?v' = "(iconVisible Play False (v\<lparr>waitingForSync := False\<rparr>))
     \<lparr>lastRateAdjust := Some now, jumpIfNeeded := False,
       videoView := Some (vv\<lparr>isPlaying2D := True,
           video := (video vv)\<lparr>playbackRate := ?r, currentTime := w,
             issued := issued (video vv) @ [SetPlaybackRate ?r, SetCurrentTime w, ElemPlay]\<rparr>\<rparr>)\<rparr>"
  have run: "handleSyncState v now True = revealLatest ?v'"
    using a w' by (simp add: handleSyncState_def applyPlayState_def calculateVideoTime_def
        playStart_def setCurrentTime_def elemPlay_def setPlaybackRate_def Let_def iconVisible_def)
  have nw: "\<not> waitingForSync ?v'" by simp
  obtain u where u: "outcomeState (revealLatest ?v') = Some u" "videoView u = videoView ?v'"
      "waitingForSync u = waitingForSync ?v'" "lastRateAdjust u = lastRateAdjust ?v'"
      "jumpIfNeeded u = jumpIfNeeded ?v'"
    using revealLatest_outcome[of ?v'] by blast
  show "\<exists>w v' u. wrappedTime vv ?t True = Some w \<and>
         handleSyncState v now True = revealLatest v' \<and> \<not> waitingForSync v' \<and>
         videoView v' = Some (vv\<lparr>isPlaying2D := True,
           video := (video vv)\<lparr>playbackRate := ?r, currentTime := w,
             issued := issued (video vv) @ [SetPlaybackRate ?r, SetCurrentTime w, ElemPlay]\<rparr>\<rparr>) \<and>
         outcomeState (handleSyncState v now True) = Some u \<and> \<not> waitingForSync u \<and>
         videoView u = videoView v' \<and> lastRateAdjust u = Some now \<and> \<not> jumpIfNeeded u"
    using w run nw u by (intro exI[of _ w] exI[of _ ?v'] exI[of _ u]) simp
qed

theorem waitingForSync_defers_witness:
  "applyPlayState (demoView\<lparr>waitingForSync := True\<rparr>) 0 = Returns (demoView\<lparr>waitingForSync := True\<rparr>) \<and>
   playStateChanged (demoView\<lparr>waitingForSync := True\<rparr>) 0
       \<lparr>isPlaying = False, startOffset = None, pausedTime = 10, actionSpec = None\<rparr> =
     Returns (demoView\<lparr>waitingForSync := True,
       latestPlayState := Some \<lparr>isPlaying = False, startOffset = None, pausedTime = 10\<rparr>\<rparr>) \<and>
   handleSyncState (demoView\<lparr>waitingForSync := True,
       latestPlayState := Some \<lparr>isPlaying = False, startOffset = None, pausedTime = 10\<rparr>\<rparr>) 1 True =
     Returns (demoView\<lparr>latestPlayState := Some \<lparr>isPlaying = False, startOffset = None, pausedTime = 10\<rparr>,
       videoView := Some ((demoVideo 60)\<lparr>video := demoElem\<lparr>currentTime := 10,
         issued := [SetCurrentTime 10, ElemPause]\<rparr>\<rparr>)\<rparr>) \<and>
   handleSyncState (demoView\<lparr>waitingForSync := True,
       latestPlayState := Some \<lparr>isPlaying = True, startOffset = Some 0, pausedTime = 0\<rparr>\<rparr>) 10000 True =
     Returns (demoView\<lparr>latestPlayState := Some \<lparr>isPlaying = True, startOffset = Some 0, pausedTime = 0\<rparr>,
       playIcon := 0, lastRateAdjust := Some 10000,
       videoView := Some ((demoVideo 60)\<lparr>isPlaying2D := True,
         video := demoElem\<lparr>currentTime := 10.1,
           issued := [SetPlaybackRate 1, SetCurrentTime 10.1, ElemPlay]\<rparr>\<rparr>)\<rparr>)"
  using waitingForSync_defers[where v = "demoView\<lparr>waitingForSync := True\<rparr>" and now = 0
      and rawData = "\<lparr>isPlaying = False, startOffset = None, pausedTime = 10, actionSpec = None\<rparr>"
      and vv = "demoVideo 60"
      and st = "\<lparr>isPlaying = False, startOffset = None, pausedTime = 0\<rparr>"]
    waitingForSync_defers[where v = "demoView\<lparr>waitingForSync := True,
       latestPlayState := Some \<lparr>isPlaying = False, startOffset = None, pausedTime = 10\<rparr>\<rparr>" and now = 1
      and rawData = "\<lparr>isPlaying = False, startOffset = None, pausedTime = 10, actionSpec = None\<rparr>"
      and vv = "demoVideo 60"
      and st = "\<lparr>isPlaying = False, startOffset = None, pausedTime = 10\<rparr>"]
    waitingForSync_defers[where v = "demoView\<lparr>waitingForSync := True,
       latestPlayState := Some \<lparr>isPlaying = True, startOffset = Some 0, pausedTime = 0\<rparr>\<rparr>" and now = 10000
      and rawData = "\<lparr>isPlaying = False, startOffset = None, pausedTime = 10, actionSpec = None\<rparr>"
      and vv = "demoVideo 60"
      and st = "\<lparr>isPlaying = True, startOffset = Some 0, pausedTime = 0\<rparr>"]
  by (simp add: demoView_def demoVideo_def demoElem_def playStateChanged_def applyPlayState_def
      handleSyncState_def pause_def setStatic_def playStart_def calculateVideoTime_def orZero_def
      wrappedTime_def wrapLoop_le iconVisible_def revealLatest_def setCurrentTime_def
      elemPause_def elemPlay_def setPlaybackRate_def)

subsection \<open>The pointer reveal\<close>

text \<open>
  A handler keeps the view's id. The action spec that a view publishes carries its
  own id and the type \<^verbatim>\<open>'video'\<close> (from \<^verbatim>\<open>handleUserClick\<close>) or \<^verbatim>\<open>'timebar'\<close> (from
  \<^verbatim>\<open>handleTimebar\<close>); nothing else in the code builds one.
\<close>

lemma revealAction_viewId:
  "outcomeState (revealAction v spec) = Some u \<Longrightarrow> viewId u = viewId v"
  by (auto simp: revealAction_def useHandToPoint_def split: if_splits option.splits)

lemma applyPlayState_viewId:
  "outcomeState (applyPlayState v now) = Some u \<Longrightarrow> viewId u = viewId v"
  using revealAction_viewId
  by (auto simp: applyPlayState_def revealLatest_def calculateVideoTime_def Let_def
           split: option.splits if_splits sum.splits)

lemma playStateChanged_viewId:
  assumes "playStateChanged v now rawData = Returns u"
  shows "viewId u = viewId v"
proof -
  let ?v1 = "v\<lparr>latestActionSpec := actionSpec rawData\<rparr>"
  let ?v2 = "?v1\<lparr>latestPlayState := Some \<lparr>isPlaying = isPlaying rawData,
      startOffset = startOffset rawData, pausedTime = pausedTime rawData\<rparr>\<rparr>"
  have "playStateChanged v now rawData = Returns ?v1 \<or>
        playStateChanged v now rawData = applyPlayState ?v2 now"
    unfolding playStateChanged_def Let_def by (rule if_split[THEN iffD2]) simp
  with assms consider "u = ?v1" | "applyPlayState ?v2 now = Returns u"
    by fastforce
  then show ?thesis
  proof cases
    case 1
    then show ?thesis by simp
  next
    case 2
    then have "outcomeState (applyPlayState ?v2 now) = Some u" by simp
    from applyPlayState_viewId[OF this] show ?thesis by simp
  qed
qed

lemma handleTimebar_spec:
  assumes "handleTimebar v now q = Returns (v', Some p)"
  shows "\<exists>s. actionSpec p = Some s \<and> specViewId s = viewId v \<and> specType s = ''timebar''"
proof -
  from assms obtain vv d where vv: "videoView v = Some vv" "duration vv = Some d"
    by (auto simp: handleTimebar_def split: option.splits)
  let ?raw = "\<lparr>isPlaying = False, startOffset = None, pausedTime = d * q, actionSpec = None\<rparr>"
  from assms vv obtain u where u: "playStateChanged v now ?raw = Returns u"
    and p: "p = \<lparr>isPlaying = False, startOffset = None, pausedTime = d * q,
           actionSpec = Some \<lparr>specViewId = viewId u, specType = ''timebar'',
             specX = q, specY = 0.5\<rparr>\<rparr>"
    by (cases "playStateChanged v now ?raw") (simp_all add: handleTimebar_def Let_def)
  from playStateChanged_viewId[OF u] p show ?thesis by simp
qed

lemma handleUserClick_spec:
  assumes "handleUserClick v now offsetX offsetY = Returns (v', Some p)"
  shows "\<exists>s. actionSpec p = Some s \<and> specViewId s = viewId v \<and> specType s = ''video''"
proof -
  from assms obtain vv where vv: "videoView v = Some vv"
    by (auto simp: handleUserClick_def split: option.splits)
  have ns: "\<not> isStepping v"
  proof
    assume "isStepping v"
    then show False using assms vv
      by (simp add: handleUserClick_def split: outcome.splits)
  qed
  have nm: "\<not> muted (video vv)"
  proof
    assume "muted (video vv)"
    then show False using assms vv ns by (simp add: handleUserClick_def)
  qed
  from assms vv ns nm obtain st where st: "latestPlayState v = Some st"
    by (cases "latestPlayState v") (simp_all add: handleUserClick_def)
  have "\<exists>w raw u s. playStateChanged (v\<lparr>videoView := Some w\<rparr>) now raw = Returns u \<and>
           actionSpec p = Some s \<and> specViewId s = viewId u \<and> specType s = ''video''"
  proof (cases "isPlaying st")
    case True
    then show ?thesis using assms vv ns nm st
      apply (clarsimp simp: handleUserClick_def Let_def pause_def setStatic_def
          split: outcome.split_asm)
      apply (intro exI conjI)
       apply assumption
      apply (rule refl)
      done
  next
    case False
    then show ?thesis using assms vv ns nm st
      apply (clarsimp simp: handleUserClick_def Let_def split: outcome.split_asm)
      apply (intro exI conjI)
       apply assumption
      apply (rule refl)
      done
  qed
  then obtain w raw u s where u: "playStateChanged (v\<lparr>videoView := Some w\<rparr>) now raw = Returns u"
    and s: "actionSpec p = Some s" "specViewId s = viewId u" "specType s = ''video''"
    by blast
  from playStateChanged_viewId[OF u] s show ?thesis by simp
qed

text \<open>
  C8. An action spec whose type is neither \<^verbatim>\<open>'video'\<close> nor \<^verbatim>\<open>'timebar'\<close> makes
  \<^verbatim>\<open>revealAction\<close> throw, and with it every \<^verbatim>\<open>applyPlayState\<close> that applies a state
  carrying it. The specs a view can receive are those of other participants and its
  own; its own are echoes of what it published, which carry one of the two known
  types, as the second and third part state, and \<^verbatim>\<open>setPlayState\<close> passes a spec on
  as it is. So a spec of unknown type is never the view's own.
\<close>

theorem revealAction_unknown_type:
  "(specType spec \<noteq> ''video'' \<and> specType spec \<noteq> ''timebar'' \<and>
    (specViewId spec = viewId v \<longrightarrow> specType spec = ''video'' \<or> specType spec = ''timebar'') \<longrightarrow>
      revealAction v spec = Throws UnknownActionType v \<and>
      (videoView v = Some vv \<and> (case duration vv of None \<Rightarrow> True | Some d \<Rightarrow> 0 \<le> d) \<and>
       \<not> waitingForSync v \<and> latestPlayState v = Some st \<and> latestActionSpec v = Some spec \<longrightarrow>
         (\<exists>v'. applyPlayState v now = Throws UnknownActionType v'))) \<and>
   (handleUserClick v now offsetX offsetY = Returns (v1, Some p) \<longrightarrow>
      (\<exists>s. actionSpec p = Some s \<and> specViewId s = viewId v \<and> specType s = ''video'')) \<and>
   (handleTimebar v now q = Returns (v2, Some p') \<longrightarrow>
      (\<exists>s. actionSpec p' = Some s \<and> specViewId s = viewId v \<and> specType s = ''timebar'')) \<and>
   snd (setPlayState m data) =
      PlayStateChanged \<lparr>isPlaying = isPlaying data, startOffset = startOffset data,
        pausedTime = pausedTime data, actionSpec = actionSpec data\<rparr>"
proof (intro conjI impI)
  assume a0: "specType spec \<noteq> ''video'' \<and> specType spec \<noteq> ''timebar'' \<and>
    (specViewId spec = viewId v \<longrightarrow> specType spec = ''video'' \<or> specType spec = ''timebar'')"
  then have a: "specViewId spec \<noteq> viewId v" "specType spec \<noteq> ''video''"
      "specType spec \<noteq> ''timebar''" by blast+
  then show "revealAction v spec = Throws UnknownActionType v"
    by (simp add: revealAction_foreign_unknown)
  assume b: "videoView v = Some vv \<and> (case duration vv of None \<Rightarrow> True | Some d \<Rightarrow> 0 \<le> d) \<and>
       \<not> waitingForSync v \<and> latestPlayState v = Some st \<and> latestActionSpec v = Some spec"
  show "\<exists>v'. applyPlayState v now = Throws UnknownActionType v'"
  proof (cases "isPlaying st")
    case False
    obtain vv' where "pause vv (Some (pausedTime st)) = Some vv'"
      using pause_total b by blast
    then show ?thesis using a b False
      by (simp add: applyPlayState_def revealLatest_def revealAction_foreign_unknown)
  next
    case True
    let ?vv1 = "vv\<lparr>video := setPlaybackRate (1 + playbackBoost v * 0.01) (video vv)\<rparr>"
    have "case duration ?vv1 of None \<Rightarrow> True | Some d \<Rightarrow> 0 \<le> d" using b by simp
    then obtain vv' where "playStart ?vv1 ((now - orZero (startOffset st)) / 1000 + 0.1) = Some vv'"
      using playStart_total by blast
    then show ?thesis using a b True
      by (simp add: applyPlayState_def calculateVideoTime_def revealLatest_def
          revealAction_foreign_unknown)
  qed
next
  assume "handleUserClick v now offsetX offsetY = Returns (v1, Some p)"
  then show "\<exists>s. actionSpec p = Some s \<and> specViewId s = viewId v \<and> specType s = ''video''"
    by (rule handleUserClick_spec)
next
  assume "handleTimebar v now q = Returns (v2, Some p')"
  then show "\<exists>s. actionSpec p' = Some s \<and> specViewId s = viewId v \<and> specType s = ''timebar''"
    by (rule handleTimebar_spec)
next
  show "snd (setPlayState m data) =
      PlayStateChanged \<lparr>isPlaying = isPlaying data, startOffset = startOffset data,
        pausedTime = pausedTime data, actionSpec = actionSpec data\<rparr>"
    by (simp add: setPlayState_def)
qed

lemma demo_click:
  "\<exists>v'. handleUserClick (demoPlaying 50 0) 70000 0 0 =
     Returns (v', Some \<lparr>isPlaying = False, startOffset = None, pausedTime = 50,
       actionSpec = Some \<lparr>specViewId = ''me'', specType = ''video'', specX = 0, specY = 0\<rparr>\<rparr>)"
  by (simp add: handleUserClick_def demoPlaying_def demoView_def demoVideo_def demoElem_def
      demoRect_def playStateChanged_def applyPlayState_def pause_def setStatic_def
      wrappedTime_def wrapLoop_le iconVisible_def revealLatest_def setCurrentTime_def
      elemPause_def Let_def)

lemma demo_timebar:
  "\<exists>v'. handleTimebar (demoView\<lparr>videoView := Some (demoVideo 10)\<rparr>) 0 1 =
     Returns (v', Some \<lparr>isPlaying = False, startOffset = None, pausedTime = 10,
       actionSpec = Some \<lparr>specViewId = ''me'', specType = ''timebar'', specX = 1, specY = 0.5\<rparr>\<rparr>)"
  by (simp add: handleTimebar_def playStateChanged_def applyPlayState_def demoView_def
      demoVideo_def demoElem_def pause_def setStatic_def wrappedTime_def wrapLoop_le
      iconVisible_def revealLatest_def setCurrentTime_def elemPause_def Let_def)

theorem revealAction_unknown_type_witness:
  "revealAction demoView \<lparr>specViewId = ''you'', specType = ''hover'', specX = 0.5, specY = 0.5\<rparr> =
     Throws UnknownActionType demoView \<and>
   (\<exists>v'. applyPlayState
      (demoView\<lparr>latestActionSpec :=
         Some \<lparr>specViewId = ''you'', specType = ''hover'', specX = 0.5, specY = 0.5\<rparr>\<rparr>) 0 =
     Throws UnknownActionType v') \<and>
   (\<exists>v' p s. handleUserClick (demoPlaying 50 0) 70000 0 0 = Returns (v', Some p) \<and>
      actionSpec p = Some s \<and> specViewId s = viewId (demoPlaying 50 0) \<and> specType s = ''video'') \<and>
   (\<exists>v' p s. handleTimebar (demoView\<lparr>videoView := Some (demoVideo 10)\<rparr>) 0 1 = Returns (v', Some p) \<and>
      actionSpec p = Some s \<and> specViewId s = viewId demoView \<and> specType s = ''timebar'')"
proof -
  let ?spec = "\<lparr>specViewId = ''you'', specType = ''hover'', specX = 0.5, specY = 0.5\<rparr>"
  let ?st = "\<lparr>isPlaying = False, startOffset = None, pausedTime = 0\<rparr>"
  have h: "specType ?spec \<noteq> ''video'' \<and> specType ?spec \<noteq> ''timebar'' \<and>
      (specViewId ?spec = viewId demoView \<longrightarrow> specType ?spec = ''video'' \<or> specType ?spec = ''timebar'')"
    by (simp add: demoView_def)
  have h': "specType ?spec \<noteq> ''video'' \<and> specType ?spec \<noteq> ''timebar'' \<and>
      (specViewId ?spec = viewId (demoView\<lparr>latestActionSpec := Some ?spec\<rparr>) \<longrightarrow>
         specType ?spec = ''video'' \<or> specType ?spec = ''timebar'')"
    by (simp add: demoView_def)
  have a: "videoView (demoView\<lparr>latestActionSpec := Some ?spec\<rparr>) = Some (demoVideo 60) \<and>
      (case duration (demoVideo 60) of None \<Rightarrow> True | Some d \<Rightarrow> 0 \<le> d) \<and>
      \<not> waitingForSync (demoView\<lparr>latestActionSpec := Some ?spec\<rparr>) \<and>
      latestPlayState (demoView\<lparr>latestActionSpec := Some ?spec\<rparr>) = Some ?st \<and>
      latestActionSpec (demoView\<lparr>latestActionSpec := Some ?spec\<rparr>) = Some ?spec"
    by (simp add: demoView_def demoVideo_def)
  from revealAction_unknown_type[where v = demoView and spec = ?spec] h
  have c1: "revealAction demoView ?spec = Throws UnknownActionType demoView" by blast
  from revealAction_unknown_type[where v = "demoView\<lparr>latestActionSpec := Some ?spec\<rparr>"
      and spec = ?spec and vv = "demoVideo 60" and st = ?st and now = 0] h' a
  have c2: "\<exists>v'. applyPlayState (demoView\<lparr>latestActionSpec := Some ?spec\<rparr>) 0 =
      Throws UnknownActionType v'" by blast
  obtain v1 where k: "handleUserClick (demoPlaying 50 0) 70000 0 0 =
     Returns (v1, Some \<lparr>isPlaying = False, startOffset = None, pausedTime = 50,
       actionSpec = Some \<lparr>specViewId = ''me'', specType = ''video'', specX = 0, specY = 0\<rparr>\<rparr>)"
    using demo_click by blast
  from revealAction_unknown_type[where v = "demoPlaying 50 0" and now = 70000 and offsetX = 0
      and offsetY = 0 and ?v1.0 = v1] k
  have c3: "\<exists>v' p s. handleUserClick (demoPlaying 50 0) 70000 0 0 = Returns (v', Some p) \<and>
      actionSpec p = Some s \<and> specViewId s = viewId (demoPlaying 50 0) \<and> specType s = ''video''"
    by blast
  obtain v2 where t: "handleTimebar (demoView\<lparr>videoView := Some (demoVideo 10)\<rparr>) 0 1 =
     Returns (v2, Some \<lparr>isPlaying = False, startOffset = None, pausedTime = 10,
       actionSpec = Some \<lparr>specViewId = ''me'', specType = ''timebar'', specX = 1, specY = 0.5\<rparr>\<rparr>)"
    using demo_timebar by blast
  from revealAction_unknown_type[where v = "demoView\<lparr>videoView := Some (demoVideo 10)\<rparr>"
      and now = 0 and q = 1 and ?v2.0 = v2] t
  have c4: "\<exists>v' p s. handleTimebar (demoView\<lparr>videoView := Some (demoVideo 10)\<rparr>) 0 1 =
      Returns (v', Some p) \<and> actionSpec p = Some s \<and>
      specViewId s = viewId (demoView\<lparr>videoView := Some (demoVideo 10)\<rparr>) \<and> specType s = ''timebar''"
    by blast
  from c1 c2 c3 c4 show ?thesis by simp
qed

subsection \<open>Drift correction\<close>

text \<open>
  A tick that gets to the rate adjustment: the video plays unblocked, 500 ms have
  passed since the last timing check and 3000 ms since the last rate adjustment, the
  difference is below half the duration and no jump check is armed.
\<close>

lemma checkPlayStatus_rate:
  assumes "videoView v = Some vv" "isPlaying2D vv" "\<not> isBlocked2D vv"
    and "now - orZero (lastTimingCheck v) \<ge> 500"
    and "latestPlayState v = Some st"
    and "wrappedTime vv ((now - orZero (startOffset st)) / 1000) False = Some expectedTime"
    and "duration vv = Some d" "currentTime (video vv) - expectedTime < d / 2"
    and "\<not> jumpIfNeeded v" "now - orZero (lastRateAdjust v) \<ge> 3000"
  shows "checkPlayStatus v now =
     Returns ((adjustRate (v\<lparr>lastTimingCheck := Some now\<rparr>) vv
                 ((currentTime (video vv) - expectedTime) * 1000))\<lparr>lastRateAdjust := Some now\<rparr>)"
  using assms
  by (simp add: checkPlayStatus_def adjustPlaybar_def calculateVideoTime_def Let_def)

lemma adjustRate_boost:
  "playbackBoost (adjustRate v vv ms) =
     (if desiredBoost ms = 0 \<and> sgn (playbackBoost v) = - sgn ms \<and> \<bar>ms\<bar> \<ge> 25
      then playbackBoost v else desiredBoost ms)"
  by (auto simp: adjustRate_def Let_def)

lemma adjustRate_hysteresis:
  "desiredBoost ms = 0 \<Longrightarrow> sgn (playbackBoost v) = - sgn ms \<Longrightarrow> 25 \<le> \<bar>ms\<bar> \<Longrightarrow>
   adjustRate v vv ms = v"
  by (auto simp: adjustRate_def Let_def)

lemma desiredBoost_cases:
  "desiredBoost ms =
     (if \<bar>ms\<bar> > 150 then - sgn ms * 3 else if \<bar>ms\<bar> > 50 then - sgn ms else 0)"
  by (simp add: desiredBoost_def Let_def)

lemma demoPlaying_fields:
  "videoView (demoPlaying ct b) = Some ((demoVideo 60)\<lparr>isPlaying2D := True,
      video := demoElem\<lparr>currentTime := ct\<rparr>\<rparr>)"
  "latestPlayState (demoPlaying ct b) = Some \<lparr>isPlaying = True, startOffset = Some 0, pausedTime = 0\<rparr>"
  "lastTimingCheck (demoPlaying ct b) = None" "lastRateAdjust (demoPlaying ct b) = None"
  "jumpIfNeeded (demoPlaying ct b) = False" "playbackBoost (demoPlaying ct b) = b"
  by (simp_all add: demoPlaying_def demoView_def)

lemma demoVideo_expected:
  "t \<le> 60 \<Longrightarrow> wrappedTime ((demoVideo 60)\<lparr>isPlaying2D := True, video := e\<rparr>) t False = Some t"
  by (simp add: wrappedTime_def demoVideo_def wrapLoop_le)

text \<open>
  C4. On a tick that performs the rate adjustment, with
  \<open>videoDiffMS = (actual - expected) * 1000\<close>: above 150 ms in magnitude the new
  \<^verbatim>\<open>playbackBoost\<close> is 3 with the sign opposite to the difference, between 50 ms
  (exclusive) and 150 ms it is 1 with the opposite sign; so a video more than 150 ms
  ahead gets \<open>-3\<close> and one more than 150 ms behind gets \<open>3\<close>.
\<close>

theorem drift_boost_sign:
  assumes "videoView v = Some vv" and "isPlaying2D vv" and "\<not> isBlocked2D vv"
    and "now - orZero (lastTimingCheck v) \<ge> 500"
    and "latestPlayState v = Some st"
    and "wrappedTime vv ((now - orZero (startOffset st)) / 1000) False = Some expectedTime"
    and "duration vv = Some d" and "currentTime (video vv) - expectedTime < d / 2"
    and "\<not> jumpIfNeeded v" and "now - orZero (lastRateAdjust v) \<ge> 3000"
    and ms: "videoDiffMS = (currentTime (video vv) - expectedTime) * 1000"
  shows "\<exists>v'. checkPlayStatus v now = Returns v' \<and>
           (\<bar>videoDiffMS\<bar> > 150 \<longrightarrow> playbackBoost v' = - sgn videoDiffMS * 3) \<and>
           (50 < \<bar>videoDiffMS\<bar> \<and> \<bar>videoDiffMS\<bar> \<le> 150 \<longrightarrow> playbackBoost v' = - sgn videoDiffMS * 1) \<and>
           (videoDiffMS > 150 \<longrightarrow> playbackBoost v' = - 3) \<and>
           (videoDiffMS < - 150 \<longrightarrow> playbackBoost v' = 3)"
proof -
  let ?v' = "(adjustRate (v\<lparr>lastTimingCheck := Some now\<rparr>) vv videoDiffMS)\<lparr>lastRateAdjust := Some now\<rparr>"
  have run: "checkPlayStatus v now = Returns ?v'"
    unfolding ms using assms(1-10) by (rule checkPlayStatus_rate)
  have boost: "playbackBoost ?v' =
     (if desiredBoost videoDiffMS = 0 \<and> sgn (playbackBoost v) = - sgn videoDiffMS \<and> \<bar>videoDiffMS\<bar> \<ge> 25
      then playbackBoost v else desiredBoost videoDiffMS)"
    by (simp add: adjustRate_boost)
  have big: "\<bar>videoDiffMS\<bar> > 150 \<Longrightarrow> playbackBoost ?v' = - sgn videoDiffMS * 3"
    unfolding boost by (auto simp: desiredBoost_cases sgn_real_def)
  have mid: "50 < \<bar>videoDiffMS\<bar> \<Longrightarrow> \<bar>videoDiffMS\<bar> \<le> 150 \<Longrightarrow> playbackBoost ?v' = - sgn videoDiffMS * 1"
    unfolding boost by (auto simp: desiredBoost_cases sgn_real_def)
  have pos: "videoDiffMS > 150 \<Longrightarrow> playbackBoost ?v' = - 3"
    using big by (simp add: sgn_real_def)
  have neg: "videoDiffMS < - 150 \<Longrightarrow> playbackBoost ?v' = 3"
    using big by (simp add: sgn_real_def)
  show ?thesis using run big mid pos neg by blast
qed

theorem drift_boost_sign_witness:
  "\<exists>v'. checkPlayStatus (demoPlaying 10.2 0) 10000 = Returns v' \<and> playbackBoost v' = - 3"
proof -
  let ?vv = "(demoVideo 60)\<lparr>isPlaying2D := True, video := demoElem\<lparr>currentTime := 10.2\<rparr>\<rparr>"
  let ?st = "\<lparr>isPlaying = True, startOffset = Some 0, pausedTime = 0\<rparr>"
  have h1: "videoView (demoPlaying 10.2 0) = Some ?vv" by (simp add: demoPlaying_fields)
  have h2: "isPlaying2D ?vv" by simp
  have h3: "\<not> isBlocked2D ?vv" by (simp add: demoVideo_def)
  have h4: "10000 - orZero (lastTimingCheck (demoPlaying 10.2 0)) \<ge> 500"
    by (simp add: demoPlaying_fields orZero_def)
  have h5: "latestPlayState (demoPlaying 10.2 0) = Some ?st" by (simp add: demoPlaying_fields)
  have h6: "wrappedTime ?vv ((10000 - orZero (startOffset ?st)) / 1000) False = Some 10"
    by (simp add: orZero_def demoVideo_expected)
  have h7: "duration ?vv = Some 60" by (simp add: demoVideo_def)
  have h8: "currentTime (video ?vv) - 10 < 60 / 2" by simp
  have h9: "\<not> jumpIfNeeded (demoPlaying 10.2 0)" by (simp add: demoPlaying_fields)
  have h10: "10000 - orZero (lastRateAdjust (demoPlaying 10.2 0)) \<ge> 3000"
    by (simp add: demoPlaying_fields orZero_def)
  have h11: "200 = (currentTime (video ?vv) - 10) * 1000" by simp
  from drift_boost_sign[OF h1 h2 h3 h4 h5 h6 h7 h8 h9 h10 h11]
  show ?thesis by auto
qed

text \<open>
  C5. On such a tick, when the desired boost is 0, the existing boost is not 0 and has
  the sign opposite to the measured difference, and the difference is at least 25 ms
  in magnitude, nothing but the two time stamps changes: the boost is kept and the
  element gets no new rate.
\<close>

theorem drift_hysteresis:
  assumes "videoView v = Some vv" and "isPlaying2D vv" and "\<not> isBlocked2D vv"
    and "now - orZero (lastTimingCheck v) \<ge> 500"
    and "latestPlayState v = Some st"
    and "wrappedTime vv ((now - orZero (startOffset st)) / 1000) False = Some expectedTime"
    and "duration vv = Some d" and "currentTime (video vv) - expectedTime < d / 2"
    and "\<not> jumpIfNeeded v" and "now - orZero (lastRateAdjust v) \<ge> 3000"
    and ms: "videoDiffMS = (currentTime (video vv) - expectedTime) * 1000"
    and "desiredBoost videoDiffMS = 0" and "playbackBoost v \<noteq> 0"
    and "sgn (playbackBoost v) = - sgn videoDiffMS" and "\<bar>videoDiffMS\<bar> \<ge> 25"
  shows "checkPlayStatus v now = Returns (v\<lparr>lastTimingCheck := Some now, lastRateAdjust := Some now\<rparr>)"
proof -
  have "checkPlayStatus v now =
      Returns ((adjustRate (v\<lparr>lastTimingCheck := Some now\<rparr>) vv videoDiffMS)\<lparr>lastRateAdjust := Some now\<rparr>)"
    unfolding ms using assms(1-10) by (rule checkPlayStatus_rate)
  moreover have "adjustRate (v\<lparr>lastTimingCheck := Some now\<rparr>) vv videoDiffMS = v\<lparr>lastTimingCheck := Some now\<rparr>"
    using assms(12,14,15) by (simp add: adjustRate_hysteresis)
  ultimately show ?thesis by simp
qed

theorem drift_hysteresis_witness:
  "checkPlayStatus (demoPlaying 9.97 1) 10000 =
     Returns ((demoPlaying 9.97 1)\<lparr>lastTimingCheck := Some 10000, lastRateAdjust := Some 10000\<rparr>) \<and>
   playbackBoost (demoPlaying 9.97 1) = 1"
proof -
  let ?vv = "(demoVideo 60)\<lparr>isPlaying2D := True, video := demoElem\<lparr>currentTime := 9.97\<rparr>\<rparr>"
  let ?st = "\<lparr>isPlaying = True, startOffset = Some 0, pausedTime = 0\<rparr>"
  have h1: "videoView (demoPlaying 9.97 1) = Some ?vv" by (simp add: demoPlaying_fields)
  have h2: "isPlaying2D ?vv" by simp
  have h3: "\<not> isBlocked2D ?vv" by (simp add: demoVideo_def)
  have h4: "10000 - orZero (lastTimingCheck (demoPlaying 9.97 1)) \<ge> 500"
    by (simp add: demoPlaying_fields orZero_def)
  have h5: "latestPlayState (demoPlaying 9.97 1) = Some ?st" by (simp add: demoPlaying_fields)
  have h6: "wrappedTime ?vv ((10000 - orZero (startOffset ?st)) / 1000) False = Some 10"
    by (simp add: orZero_def demoVideo_expected)
  have h7: "duration ?vv = Some 60" by (simp add: demoVideo_def)
  have h8: "currentTime (video ?vv) - 10 < 60 / 2" by simp
  have h9: "\<not> jumpIfNeeded (demoPlaying 9.97 1)" by (simp add: demoPlaying_fields)
  have h10: "10000 - orZero (lastRateAdjust (demoPlaying 9.97 1)) \<ge> 3000"
    by (simp add: demoPlaying_fields orZero_def)
  have h11: "- 30 = (currentTime (video ?vv) - 10) * 1000" by simp
  have h12: "desiredBoost (- 30) = 0" by (simp add: desiredBoost_def)
  have h13: "playbackBoost (demoPlaying 9.97 1) \<noteq> 0" by (simp add: demoPlaying_fields)
  have h14: "sgn (playbackBoost (demoPlaying 9.97 1)) = - sgn (- 30 :: real)"
    by (simp add: demoPlaying_fields)
  have h15: "\<bar>- 30 :: real\<bar> \<ge> 25" by simp
  from drift_hysteresis[OF h1 h2 h3 h4 h5 h6 h7 h8 h9 h10 h11 h12 h13 h14 h15]
  show ?thesis by (simp add: demoPlaying_fields)
qed

subsection \<open>The jump check\<close>

text \<open>
  One tick issues at most one seek, and only by consuming an armed flag; a tick never
  arms the flag. So a run that starts disarmed issues no seek at all.
\<close>

lemma adjustRate_seeks:
  "videoView v = Some vv \<Longrightarrow>
   seeksIssued (adjustRate v vv ms) = seeksIssued v \<and>
   jumpIfNeeded (adjustRate v vv ms) = jumpIfNeeded v"
  by (simp add: adjustRate_def Let_def seeksIssued_def setPlaybackRate_def)

lemma checkPlayStatus_Returns_cases:
  assumes "checkPlayStatus v now = Returns v'"
  shows "v' = v \<or> v' = v\<lparr>lastTimingCheck := Some now\<rparr> \<or>
         (\<exists>vv ms. videoView v = Some vv \<and> \<not> jumpIfNeeded v \<and>
            v' = (adjustRate (v\<lparr>lastTimingCheck := Some now\<rparr>) vv ms)\<lparr>lastRateAdjust := Some now\<rparr>) \<or>
         (jumpIfNeeded v \<and> v' = v\<lparr>lastTimingCheck := Some now, jumpIfNeeded := False\<rparr>) \<or>
         (\<exists>vv w. videoView v = Some vv \<and> jumpIfNeeded v \<and>
            v' = v\<lparr>lastTimingCheck := Some now, jumpIfNeeded := False,
                   videoView := Some (vv\<lparr>video := setCurrentTime w (video vv)\<rparr>)\<rparr>)"
  using assms
  by (auto simp: checkPlayStatus_def Let_def split: sum.splits if_splits option.splits)

lemma seeksIssued_simps:
  "seeksIssued (v\<lparr>lastTimingCheck := a\<rparr>) = seeksIssued v"
  "seeksIssued (v\<lparr>lastRateAdjust := a\<rparr>) = seeksIssued v"
  "seeksIssued (v\<lparr>jumpIfNeeded := b\<rparr>) = seeksIssued v"
  by (simp_all add: seeksIssued_def)

lemma seeksIssued_seek:
  "videoView v = Some vv \<Longrightarrow>
   seeksIssued (v\<lparr>videoView := Some (vv\<lparr>video := setCurrentTime w (video vv)\<rparr>)\<rparr>) = seeksIssued v + 1"
  by (simp add: seeksIssued_def setCurrentTime_def)

lemma checkPlayStatus_tick:
  assumes "checkPlayStatus v now = Returns v'"
  shows "(jumpIfNeeded v' \<longrightarrow> jumpIfNeeded v) \<and>
         (seeksIssued v' = seeksIssued v \<or>
          (seeksIssued v' = seeksIssued v + 1 \<and> jumpIfNeeded v \<and> \<not> jumpIfNeeded v'))"
  using checkPlayStatus_Returns_cases[OF assms]
proof (elim disjE exE conjE)
  fix vv ms
  assume "videoView v = Some vv" "\<not> jumpIfNeeded v"
    and "v' = (adjustRate (v\<lparr>lastTimingCheck := Some now\<rparr>) vv ms)\<lparr>lastRateAdjust := Some now\<rparr>"
  then show ?thesis
    using adjustRate_seeks[of "v\<lparr>lastTimingCheck := Some now\<rparr>" vv ms]
    by (simp add: seeksIssued_simps)
next
  fix vv w
  assume "videoView v = Some vv" "jumpIfNeeded v"
    and "v' = v\<lparr>lastTimingCheck := Some now, jumpIfNeeded := False,
                   videoView := Some (vv\<lparr>video := setCurrentTime w (video vv)\<rparr>)\<rparr>"
  then show ?thesis
    using seeksIssued_seek[of "v\<lparr>lastTimingCheck := Some now, jumpIfNeeded := False\<rparr>" vv w]
    by (simp add: seeksIssued_simps)
qed (simp_all add: seeksIssued_simps)

lemma checkPlayStatus_throws:
  assumes "checkPlayStatus v now = Throws e v'"
  shows "jumpIfNeeded v' = jumpIfNeeded v"
  using assms
  by (auto simp: checkPlayStatus_def Let_def split: sum.splits if_splits option.splits)

lemma jumpSeeks_disarmed:
  "\<not> jumpIfNeeded v \<Longrightarrow> \<forall>(env, now) \<in> set ticks. keepsDisarmed env \<Longrightarrow> jumpSeeks v ticks = 0"
proof (induction ticks arbitrary: v)
  case Nil
  show ?case by simp
next
  case (Cons tick ticks)
  obtain env now where tick: "tick = (env, now)" by (cases tick)
  have env: "keepsDisarmed env" and rest: "\<forall>(env, now) \<in> set ticks. keepsDisarmed env"
    using Cons.prems(2) tick by auto
  have off: "\<not> jumpIfNeeded (env v)" using env Cons.prems(1) by (auto simp: keepsDisarmed_def)
  show ?case
  proof (cases "checkPlayStatus (env v) now")
    case (Returns v')
    from checkPlayStatus_tick[OF Returns] off
    have "\<not> jumpIfNeeded v'" "seeksIssued v' = seeksIssued (env v)" by auto
    then show ?thesis using Returns tick Cons.IH[OF _ rest] by simp
  next
    case (Throws e v')
    then have "\<not> jumpIfNeeded v'" using checkPlayStatus_throws off by blast
    then show ?thesis using Throws tick Cons.IH[OF _ rest] by simp
  qed (simp_all add: tick)
qed

lemma jumpSeeks_le_1:
  "\<forall>(env, now) \<in> set ticks. keepsDisarmed env \<Longrightarrow> jumpSeeks v ticks \<le> 1"
proof (induction ticks arbitrary: v)
  case Nil
  show ?case by simp
next
  case (Cons tick ticks)
  obtain env now where tick: "tick = (env, now)" by (cases tick)
  have rest: "\<forall>(env, now) \<in> set ticks. keepsDisarmed env"
    using Cons.prems tick by auto
  show ?case
  proof (cases "checkPlayStatus (env v) now")
    case (Returns v')
    from checkPlayStatus_tick[OF Returns]
    consider "seeksIssued v' = seeksIssued (env v)"
      | "seeksIssued v' = seeksIssued (env v) + 1" "\<not> jumpIfNeeded v'" by blast
    then show ?thesis
    proof cases
      case 1
      then show ?thesis using Returns tick Cons.IH[OF rest, of v'] by simp
    next
      case 2
      then show ?thesis using Returns tick jumpSeeks_disarmed[OF _ rest, of v'] by simp
    qed
  next
    case (Throws e v')
    then show ?thesis using tick Cons.IH[OF rest, of v'] by simp
  qed (simp_all add: tick)
qed

lemma checkPlayStatus_jump:
  assumes "videoView u = Some vv" and "isPlaying2D vv" and "\<not> isBlocked2D vv"
    and "now - orZero (lastTimingCheck u) \<ge> 500"
    and "latestPlayState u = Some st"
    and "wrappedTime vv ((now - orZero (startOffset st)) / 1000) False = Some expectedTime"
    and "duration vv = Some d" and "currentTime (video vv) - expectedTime < d / 2"
    and "jumpIfNeeded u"
    and "wrappedTime vv (currentTime (video vv) - (currentTime (video vv) - expectedTime) + 0.1) True = Some w"
  shows "checkPlayStatus u now =
     Returns (if \<bar>(currentTime (video vv) - expectedTime) * 1000\<bar> > 500
              then u\<lparr>lastTimingCheck := Some now, jumpIfNeeded := False,
                     videoView := Some (vv\<lparr>video := setCurrentTime w (video vv)\<rparr>)\<rparr>
              else u\<lparr>lastTimingCheck := Some now, jumpIfNeeded := False\<rparr>)"
  using assms
  by (simp add: checkPlayStatus_def adjustPlaybar_def calculateVideoTime_def Let_def)

text \<open>
  C6. \<^verbatim>\<open>triggerJumpCheck\<close> arms the flag. In every run of ticks from there, whatever
  happens between the ticks short of arming the flag again, the ticks issue at most
  one seek. A tick that reaches the test of the flag with the flag set returns with the
  flag cleared, and has issued a seek exactly when the difference exceeds 500 ms in
  magnitude.
\<close>

theorem jump_check_one_shot:
  "jumpIfNeeded (triggerJumpCheck v) \<and>
   ((\<forall>(env, now) \<in> set ticks. keepsDisarmed env) \<longrightarrow> jumpSeeks (triggerJumpCheck v) ticks \<le> 1) \<and>
   (videoView u = Some vv \<and> isPlaying2D vv \<and> \<not> isBlocked2D vv \<and>
    now - orZero (lastTimingCheck u) \<ge> 500 \<and> latestPlayState u = Some st \<and>
    wrappedTime vv ((now - orZero (startOffset st)) / 1000) False = Some expectedTime \<and>
    duration vv = Some d \<and> 0 \<le> d \<and> currentTime (video vv) - expectedTime < d / 2 \<and>
    jumpIfNeeded u \<longrightarrow>
      (\<exists>u'. checkPlayStatus u now = Returns u' \<and> \<not> jumpIfNeeded u' \<and>
         seeksIssued u' = seeksIssued u +
           (if \<bar>(currentTime (video vv) - expectedTime) * 1000\<bar> > 500 then 1 else 0)))"
proof (intro conjI impI)
  show "jumpIfNeeded (triggerJumpCheck v)" by (simp add: triggerJumpCheck_def)
next
  assume "\<forall>(env, now) \<in> set ticks. keepsDisarmed env"
  then show "jumpSeeks (triggerJumpCheck v) ticks \<le> 1" by (rule jumpSeeks_le_1)
next
  assume a: "videoView u = Some vv \<and> isPlaying2D vv \<and> \<not> isBlocked2D vv \<and>
    now - orZero (lastTimingCheck u) \<ge> 500 \<and> latestPlayState u = Some st \<and>
    wrappedTime vv ((now - orZero (startOffset st)) / 1000) False = Some expectedTime \<and>
    duration vv = Some d \<and> 0 \<le> d \<and> currentTime (video vv) - expectedTime < d / 2 \<and>
    jumpIfNeeded u"
  then have "case duration vv of None \<Rightarrow> True | Some d \<Rightarrow> 0 \<le> d" by simp
  then obtain w where
    w: "wrappedTime vv (currentTime (video vv) - (currentTime (video vv) - expectedTime) + 0.1) True = Some w"
    using wrappedTime_total by blast
  have run: "checkPlayStatus u now =
     Returns (if \<bar>(currentTime (video vv) - expectedTime) * 1000\<bar> > 500
              then u\<lparr>lastTimingCheck := Some now, jumpIfNeeded := False,
                     videoView := Some (vv\<lparr>video := setCurrentTime w (video vv)\<rparr>)\<rparr>
              else u\<lparr>lastTimingCheck := Some now, jumpIfNeeded := False\<rparr>)"
  proof (rule checkPlayStatus_jump)
    show "videoView u = Some vv" "isPlaying2D vv" "\<not> isBlocked2D vv"
      "now - orZero (lastTimingCheck u) \<ge> 500" "latestPlayState u = Some st"
      "wrappedTime vv ((now - orZero (startOffset st)) / 1000) False = Some expectedTime"
      "duration vv = Some d" "currentTime (video vv) - expectedTime < d / 2" "jumpIfNeeded u"
      using a by blast+
    show "wrappedTime vv (currentTime (video vv) - (currentTime (video vv) - expectedTime) + 0.1) True = Some w"
      by (rule w)
  qed
  have sk: "seeksIssued (u\<lparr>lastTimingCheck := Some now, jumpIfNeeded := False,
                     videoView := Some (vv\<lparr>video := setCurrentTime w (video vv)\<rparr>)\<rparr>) = seeksIssued u + 1"
    using a seeksIssued_seek[of "u\<lparr>lastTimingCheck := Some now, jumpIfNeeded := False\<rparr>" vv w]
    by (simp add: seeksIssued_simps)
  show "\<exists>u'. checkPlayStatus u now = Returns u' \<and> \<not> jumpIfNeeded u' \<and>
         seeksIssued u' = seeksIssued u +
           (if \<bar>(currentTime (video vv) - expectedTime) * 1000\<bar> > 500 then 1 else 0)"
    unfolding run using sk by (simp add: seeksIssued_simps)
qed

lemma keepsDisarmed_videoAt: "keepsDisarmed (videoAt ct)"
  by (simp add: keepsDisarmed_def videoAt_def)

lemma demo_tick1:
  "checkPlayStatus (videoAt 11 (triggerJumpCheck (demoPlaying 0 0))) 10000 =
     Returns ((demoPlaying 10.1 0)\<lparr>lastTimingCheck := Some 10000,
        videoView := Some ((demoVideo 60)\<lparr>isPlaying2D := True,
          video := demoElem\<lparr>currentTime := 10.1, issued := [SetCurrentTime 10.1]\<rparr>\<rparr>)\<rparr>)"
  by (simp add: checkPlayStatus_def adjustPlaybar_def calculateVideoTime_def Let_def
      videoAt_def triggerJumpCheck_def demoPlaying_def demoView_def demoVideo_def demoElem_def
      orZero_def wrappedTime_def wrapLoop_le setCurrentTime_def)

lemma demo_tick2:
  "checkPlayStatus (videoAt 10.7 ((demoPlaying 10.1 0)\<lparr>lastTimingCheck := Some 10000,
        videoView := Some ((demoVideo 60)\<lparr>isPlaying2D := True,
          video := demoElem\<lparr>currentTime := 10.1, issued := [SetCurrentTime 10.1]\<rparr>\<rparr>)\<rparr>)) 10600 =
     Returns ((demoPlaying 10.7 (- 1))\<lparr>lastTimingCheck := Some 10600, lastRateAdjust := Some 10600,
        videoView := Some ((demoVideo 60)\<lparr>isPlaying2D := True,
          video := demoElem\<lparr>currentTime := 10.7, playbackRate := 0.99,
            issued := [SetCurrentTime 10.1, SetPlaybackRate 0.99]\<rparr>\<rparr>)\<rparr>)"
  by (simp add: checkPlayStatus_def adjustPlaybar_def calculateVideoTime_def Let_def
      videoAt_def demoPlaying_def demoView_def demoVideo_def demoElem_def
      orZero_def wrappedTime_def wrapLoop_le adjustRate_def desiredBoost_def setPlaybackRate_def)

theorem jump_check_one_shot_witness:
  "keepsDisarmed (videoAt 11) \<and> keepsDisarmed (videoAt 10.7) \<and>
   jumpSeeks (triggerJumpCheck (demoPlaying 0 0)) [(videoAt 11, 10000), (videoAt 10.7, 10600)] = 1 \<and>
   (\<exists>u'. checkPlayStatus (videoAt 11 (triggerJumpCheck (demoPlaying 0 0))) 10000 = Returns u' \<and>
      \<not> jumpIfNeeded u' \<and> seeksIssued u' = 1)"
proof -
  let ?u = "videoAt 11 (triggerJumpCheck (demoPlaying 0 0))"
  let ?vv = "(demoVideo 60)\<lparr>isPlaying2D := True, video := demoElem\<lparr>currentTime := 11\<rparr>\<rparr>"
  let ?st = "\<lparr>isPlaying = True, startOffset = Some 0, pausedTime = 0\<rparr>"
  let ?ticks = "[(videoAt 11, 10000), (videoAt 10.7, 10600)]"
  have k: "\<forall>(env, now) \<in> set ?ticks. keepsDisarmed env"
    by (simp add: keepsDisarmed_videoAt)
  have h: "videoView ?u = Some ?vv \<and> isPlaying2D ?vv \<and> \<not> isBlocked2D ?vv \<and>
    10000 - orZero (lastTimingCheck ?u) \<ge> 500 \<and> latestPlayState ?u = Some ?st \<and>
    wrappedTime ?vv ((10000 - orZero (startOffset ?st)) / 1000) False = Some 10 \<and>
    duration ?vv = Some 60 \<and> (0::real) \<le> 60 \<and> currentTime (video ?vv) - 10 < 60 / 2 \<and>
    jumpIfNeeded ?u"
    by (simp add: videoAt_def triggerJumpCheck_def demoPlaying_def demoView_def demoVideo_def
        demoElem_def orZero_def wrappedTime_def wrapLoop_le)
  have s0: "seeksIssued ?u = 0"
    by (simp add: seeksIssued_def videoAt_def triggerJumpCheck_def demoPlaying_def demoView_def
        demoVideo_def demoElem_def)
  note main = jump_check_one_shot[where v = "demoPlaying 0 0" and ticks = ?ticks and u = ?u
      and vv = ?vv and now = 10000 and st = ?st and expectedTime = 10 and d = 60]
  from main k have le: "jumpSeeks (triggerJumpCheck (demoPlaying 0 0)) ?ticks \<le> 1" by blast
  from main h have
    "\<exists>u'. checkPlayStatus ?u 10000 = Returns u' \<and> \<not> jumpIfNeeded u' \<and>
       seeksIssued u' = seeksIssued ?u +
         (if \<bar>(currentTime (video ?vv) - 10) * 1000\<bar> > 500 then 1 else 0)"
    by blast
  then have one: "\<exists>u'. checkPlayStatus ?u 10000 = Returns u' \<and> \<not> jumpIfNeeded u' \<and> seeksIssued u' = 1"
    using s0 by simp
  have "jumpSeeks (triggerJumpCheck (demoPlaying 0 0)) ?ticks = 1"
    apply (simp only: jumpSeeks.simps demo_tick1 demo_tick2 outcome.case)
    apply (simp add: seeksIssued_def videoAt_def triggerJumpCheck_def
        demoPlaying_def demoView_def demoVideo_def demoElem_def)
    done
  with le one show ?thesis by (simp add: keepsDisarmed_videoAt)
qed

subsection \<open>The paused time of the replicated state\<close>

text \<open>
  What the two user actions publish: a click publishes either a playing state with
  paused time 0 or a paused state at the element's current time; a drag of the timebar
  publishes a paused state at the duration times a proportion between 0 and 1, both
  ends included. Either way the paused time lies between 0 and the duration of the
  video that the publishing view has loaded.
\<close>

lemma pause_None: "pause vv None = Some (vv\<lparr>isPlaying2D := False, isBlocked2D := False,
     video := elemPause (video vv)\<rparr>)"
  by (simp add: pause_def setStatic_def)

lemma handleUserClick_published:
  assumes "handleUserClick v now offsetX offsetY = Returns (v', Some p)"
    and "videoView v = Some vv"
  shows "(isPlaying p \<and> pausedTime p = 0) \<or>
         (\<not> isPlaying p \<and> pausedTime p = currentTime (video vv))"
  using assms
  by (auto simp: handleUserClick_def Let_def pause_None elemPause_def
           split: if_splits option.splits outcome.splits)

lemma timeProportion_range:
  "timeProportion offsetX w = Some q \<Longrightarrow> 0 \<le> q \<and> q \<le> 1"
  by (auto simp: timeProportion_def split: if_splits)

lemma handleTimebar_published:
  assumes "handleTimebar v now q = Returns (v', Some p)"
    and "videoView v = Some vv" and "duration vv = Some d"
  shows "\<not> isPlaying p \<and> pausedTime p = d * q"
  using assms
  by (auto simp: handleTimebar_def Let_def split: outcome.splits)

lemma dragAtOffset_published:
  assumes "dragAtOffset tb v now offsetX = Returns (tb', v', Some p)"
    and "videoView v = Some vv" and "duration vv = Some d"
  shows "\<not> isPlaying p \<and> (\<exists>q. 0 \<le> q \<and> q \<le> 1 \<and> pausedTime p = d * q)"
proof -
  from assms(1) obtain q v1 where q: "timeProportion offsetX (barWidth tb) = Some q"
    and h: "handleTimebar v now q = Returns (v1, Some p)"
    by (auto simp: dragAtOffset_def Let_def split: option.splits if_splits outcome.splits prod.splits)
  from handleTimebar_published[OF h assms(2,3)] timeProportion_range[OF q]
  show ?thesis by blast
qed

lemma setPlayState_fields:
  "isPlaying (fst (setPlayState m p)) = isPlaying p"
  "pausedTime (fst (setPlayState m p)) = pausedTime p"
  "startOffset (fst (setPlayState m p)) = startOffset p"
  "assetDescriptor (fst (setPlayState m p)) = assetDescriptor m"
  by (simp_all add: setPlayState_def)

lemma published_bounds:
  assumes "videoView v = Some vv" and "duration vv = Some d" and "0 \<le> d"
    and "0 \<le> currentTime (video vv)" and "currentTime (video vv) \<le> d"
    and "handleUserClick v now offsetX offsetY = Returns (v', Some p) \<or>
         dragAtOffset tb v now offsetX = Returns (tb', v', Some p)"
  shows "0 \<le> pausedTime p \<and> pausedTime p \<le> d \<and> (isPlaying p \<longrightarrow> pausedTime p = 0)"
  using assms(6)
proof
  assume "handleUserClick v now offsetX offsetY = Returns (v', Some p)"
  from handleUserClick_published[OF this assms(1)]
  show ?thesis using assms(3,4,5) by auto
next
  assume "dragAtOffset tb v now offsetX = Returns (tb', v', Some p)"
  from dragAtOffset_published[OF this assms(1,2)]
  obtain q where q: "\<not> isPlaying p" "0 \<le> q" "q \<le> 1" "pausedTime p = d * q" by blast
  have "0 \<le> d * q" using assms(3) q(2) by simp
  moreover have "d * q \<le> d" using assms(3) q(3) by (simp add: mult_left_le)
  ultimately show ?thesis using q by simp
qed

lemma reachable_invariant:
  assumes "reachable dur assets m" and "\<forall>a. 0 \<le> dur a"
  shows "0 \<le> pausedTime m \<and> (isPlaying m \<longrightarrow> pausedTime m = 0) \<and>
         (\<exists>a. assetDescriptor m = Some a \<and> a \<in> set assets) \<and>
         (\<exists>b \<in> set assets. pausedTime m \<le> dur b)"
  using assms
proof (induction rule: reachable.induct)
  case (first a m)
  then show ?case by (simp add: addAsset_def)
next
  case (added assets m a)
  then show ?case by (auto simp: addAsset_def)
next
  case (clicked assets m b v vv now offsetX offsetY v' p)
  have "0 \<le> dur b" using clicked.prems by simp
  from published_bounds[OF clicked.hyps(3,4) this clicked.hyps(5,6), of now offsetX offsetY v' p]
    clicked.hyps(7)
  have "0 \<le> pausedTime p \<and> pausedTime p \<le> dur b \<and> (isPlaying p \<longrightarrow> pausedTime p = 0)"
    by blast
  then show ?case using clicked.IH[OF clicked.prems] clicked.hyps(2)
    by (auto simp: setPlayState_fields)
next
  case (scrubbed assets m b v vv tb now offsetX tb' v' p)
  from dragAtOffset_published[OF scrubbed.hyps(5) scrubbed.hyps(3) scrubbed.hyps(4)]
  obtain q where q: "\<not> isPlaying p" "0 \<le> q" "q \<le> 1" "pausedTime p = dur b * q" by blast
  have d: "0 \<le> dur b" using scrubbed.prems by simp
  have "0 \<le> dur b * q" using d q(2) by simp
  moreover have "dur b * q \<le> dur b" using d q(3) by (simp add: mult_left_le)
  ultimately show ?case using q scrubbed.IH[OF scrubbed.prems] scrubbed.hyps(2)
    by (auto simp: setPlayState_fields)
qed

text \<open>
  C2 (amended). In every reachable state of the model the paused time is at least 0,
  it is 0 while the state is playing, and it is at most the duration of one of the
  assets added so far. What \<^verbatim>\<open>setPlayState\<close> stores is at most the duration of the
  video that the publishing view had loaded, and leaves the asset of the model as it
  is: so the paused time is at most the duration of the model's current video whenever
  the publishing view had that video loaded. The bound is not strict, and it does not
  hold for a view that still had an earlier, longer video loaded.
\<close>

theorem reachable_pausedTime:
  "(reachable dur assets m \<and> (\<forall>a. 0 \<le> dur a) \<longrightarrow>
      0 \<le> pausedTime m \<and> (isPlaying m \<longrightarrow> pausedTime m = 0) \<and>
      (\<exists>a. assetDescriptor m = Some a \<and> a \<in> set assets) \<and>
      (\<exists>b \<in> set assets. pausedTime m \<le> dur b)) \<and>
   (videoView v = Some vv \<and> duration vv = Some d \<and> 0 \<le> d \<and>
    0 \<le> currentTime (video vv) \<and> currentTime (video vv) \<le> d \<and>
    (handleUserClick v now offsetX offsetY = Returns (v', Some p) \<or>
     dragAtOffset tb v now offsetX = Returns (tb', v', Some p)) \<longrightarrow>
      0 \<le> pausedTime (fst (setPlayState m' p)) \<and> pausedTime (fst (setPlayState m' p)) \<le> d \<and>
      assetDescriptor (fst (setPlayState m' p)) = assetDescriptor m')"
proof (intro conjI impI)
  assume a: "videoView v = Some vv \<and> duration vv = Some d \<and> 0 \<le> d \<and>
    0 \<le> currentTime (video vv) \<and> currentTime (video vv) \<le> d \<and>
    (handleUserClick v now offsetX offsetY = Returns (v', Some p) \<or>
     dragAtOffset tb v now offsetX = Returns (tb', v', Some p))"
  then have b: "0 \<le> pausedTime p \<and> pausedTime p \<le> d \<and> (isPlaying p \<longrightarrow> pausedTime p = 0)"
    using published_bounds[of v vv d now offsetX offsetY v' p tb tb'] by blast
  show "0 \<le> pausedTime (fst (setPlayState m' p))" using b by (simp add: setPlayState_fields)
  show "pausedTime (fst (setPlayState m' p)) \<le> d" using b by (simp add: setPlayState_fields)
  show "assetDescriptor (fst (setPlayState m' p)) = assetDescriptor m'"
    by (simp add: setPlayState_fields)
qed (use reachable_invariant[of dur assets m] in blast)+

lemma demo_drag:
  "dragAtOffset demoTimebar (demoView\<lparr>videoView := Some (demoVideo 10)\<rparr>) 0 200 =
     Returns (demoTimebar\<lparr>lastDragProportion := Some 1\<rparr>,
       demoView\<lparr>latestPlayState := Some \<lparr>isPlaying = False, startOffset = None, pausedTime = 10\<rparr>,
         videoView := Some ((demoVideo 10)\<lparr>video := demoElem\<lparr>currentTime := 9.9,
           issued := [SetCurrentTime 9.9, ElemPause]\<rparr>\<rparr>)\<rparr>,
       Some \<lparr>isPlaying = False, startOffset = None, pausedTime = 10,
         actionSpec = Some \<lparr>specViewId = ''me'', specType = ''timebar'', specX = 1, specY = 0.5\<rparr>\<rparr>)"
  by (simp add: dragAtOffset_def timeProportion_def demoTimebar_def handleTimebar_def
      playStateChanged_def applyPlayState_def demoView_def demoVideo_def demoElem_def
      pause_def setStatic_def wrappedTime_def wrapLoop_le iconVisible_def revealLatest_def
      setCurrentTime_def elemPause_def Let_def)

lemma demo_scrub_reachable:
  "reachable demoDur [''clip'']
     \<lparr>isPlaying = False, startOffset = None, pausedTime = 10, assetDescriptor = Some ''clip''\<rparr>"
proof -
  let ?m1 = "fst (addAsset demoModel ''clip'')"
  have r1: "reachable demoDur [''clip''] ?m1" by (rule reachable.first)
  have b: "''clip'' \<in> set [''clip'']" by simp
  have v: "videoView (demoView\<lparr>videoView := Some (demoVideo 10)\<rparr>) = Some (demoVideo 10)" by simp
  have d: "duration (demoVideo 10) = Some (demoDur ''clip'')" by (simp add: demoVideo_def demoDur_def)
  from reachable.scrubbed[OF r1 b v d demo_drag]
  show ?thesis by (simp add: setPlayState_def addAsset_def demoModel_def)
qed

lemma demo_stale_reachable:
  "reachable demoDur [''clip'', ''film'']
     \<lparr>isPlaying = False, startOffset = None, pausedTime = 50, assetDescriptor = Some ''clip''\<rparr>"
proof -
  let ?m1 = "fst (addAsset demoModel ''film'')"
  let ?m2 = "fst (addAsset ?m1 ''clip'')"
  let ?vv = "(demoVideo 60)\<lparr>isPlaying2D := True, video := demoElem\<lparr>currentTime := 50\<rparr>\<rparr>"
  have r1: "reachable demoDur [''film''] ?m1" by (rule reachable.first)
  have r2: "reachable demoDur [''clip'', ''film''] ?m2" using r1 by (rule reachable.added)
  have b: "''film'' \<in> set [''clip'', ''film'']" by simp
  have v: "videoView (demoPlaying 50 0) = Some ?vv" by (simp add: demoPlaying_def)
  have d: "duration ?vv = Some (demoDur ''film'')" by (simp add: demoVideo_def demoDur_def)
  have c0: "0 \<le> currentTime (video ?vv)" by simp
  have c1: "currentTime (video ?vv) \<le> demoDur ''film''" by (simp add: demoDur_def)
  obtain v' where click: "handleUserClick (demoPlaying 50 0) 70000 0 0 =
     Returns (v', Some \<lparr>isPlaying = False, startOffset = None, pausedTime = 50,
       actionSpec = Some \<lparr>specViewId = ''me'', specType = ''video'', specX = 0, specY = 0\<rparr>\<rparr>)"
    using demo_click by blast
  from reachable.clicked[OF r2 b v d c0 c1 click]
  show ?thesis by (simp add: setPlayState_def addAsset_def demoModel_def)
qed

theorem reachable_pausedTime_witness:
  "(\<forall>a. 0 \<le> demoDur a) \<and>
   0 \<le> pausedTime \<lparr>isPlaying = False, startOffset = None, pausedTime = 50,
          assetDescriptor = Some ''clip''\<rparr> \<and>
   (\<exists>b \<in> set [''clip'', ''film''].
      pausedTime \<lparr>isPlaying = False, startOffset = None, pausedTime = 50,
          assetDescriptor = Some ''clip''\<rparr> \<le> demoDur b) \<and>
   pausedTime (fst (setPlayState (fst (addAsset demoModel ''clip''))
        \<lparr>isPlaying = False, startOffset = None, pausedTime = 10,
          actionSpec = Some \<lparr>specViewId = ''me'', specType = ''timebar'', specX = 1, specY = 0.5\<rparr>\<rparr>))
      \<le> 10"
proof -
  have h: "\<forall>a. 0 \<le> demoDur a" by (simp add: demoDur_def)
  have s: "videoView (demoView\<lparr>videoView := Some (demoVideo 10)\<rparr>) = Some (demoVideo 10) \<and>
       duration (demoVideo 10) = Some 10 \<and> (0::real) \<le> 10 \<and>
       0 \<le> currentTime (video (demoVideo 10)) \<and> currentTime (video (demoVideo 10)) \<le> 10"
    by (simp add: demoVideo_def demoElem_def)
  note main = reachable_pausedTime[where dur = demoDur and assets = "[''clip'', ''film'']"
      and m = "\<lparr>isPlaying = False, startOffset = None, pausedTime = 50,
          assetDescriptor = Some ''clip''\<rparr>"
      and v = "demoView\<lparr>videoView := Some (demoVideo 10)\<rparr>" and vv = "demoVideo 10" and d = 10
      and tb = demoTimebar and now = 0 and offsetX = 200 and m' = "fst (addAsset demoModel ''clip'')"]
  from main demo_stale_reachable h have
    "0 \<le> pausedTime \<lparr>isPlaying = False, startOffset = None, pausedTime = 50,
          assetDescriptor = Some ''clip''\<rparr> \<and>
     (\<exists>b \<in> set [''clip'', ''film''].
        pausedTime \<lparr>isPlaying = False, startOffset = None, pausedTime = 50,
          assetDescriptor = Some ''clip''\<rparr> \<le> demoDur b)"
    by blast
  moreover from main s demo_drag have
    "pausedTime (fst (setPlayState (fst (addAsset demoModel ''clip''))
        \<lparr>isPlaying = False, startOffset = None, pausedTime = 10,
          actionSpec = Some \<lparr>specViewId = ''me'', specType = ''timebar'', specX = 1, specY = 0.5\<rparr>\<rparr>))
      \<le> 10"
    by blast
  ultimately show ?thesis using h by blast
qed

text \<open>
  Two reachable states that are paused with a paused time not below the duration of
  the model's current video. After \<^verbatim>\<open>addAsset\<close> of a clip of 10 seconds, a drag to the
  right end of the timebar (offset 200 on a bar 200 wide, proportion 1) publishes the
  paused time 10, which \<^verbatim>\<open>setPlayState\<close> stores. And after \<^verbatim>\<open>addAsset\<close> of a film of
  60 seconds and then of the clip, a click that pauses at 50 seconds in a view that
  still plays the film publishes the paused time 50, which \<^verbatim>\<open>setPlayState\<close> stores
  for the clip.
\<close>

theorem reachable_pausedTime_counterexample:
  "reachable demoDur [''clip'']
     \<lparr>isPlaying = False, startOffset = None, pausedTime = 10, assetDescriptor = Some ''clip''\<rparr> \<and>
   \<not> isPlaying \<lparr>isPlaying = False, startOffset = None, pausedTime = 10,
          assetDescriptor = Some ''clip''\<rparr> \<and>
   \<not> (pausedTime \<lparr>isPlaying = False, startOffset = None, pausedTime = 10,
          assetDescriptor = Some ''clip''\<rparr> < demoDur ''clip'') \<and>
   reachable demoDur [''clip'', ''film'']
     \<lparr>isPlaying = False, startOffset = None, pausedTime = 50, assetDescriptor = Some ''clip''\<rparr> \<and>
   \<not> isPlaying \<lparr>isPlaying = False, startOffset = None, pausedTime = 50,
          assetDescriptor = Some ''clip''\<rparr> \<and>
   \<not> (pausedTime \<lparr>isPlaying = False, startOffset = None, pausedTime = 50,
          assetDescriptor = Some ''clip''\<rparr> \<le> demoDur ''clip'')"
  using demo_scrub_reachable demo_stale_reachable by (simp add: demoDur_def)

end
